theory Spec2Isabelle
  imports Complex_Main "HOL-Library.Word" "HOL-Library.AList"
begin

section \<open>Data model of the channel server\<close>

text \<open>
  The Go source is \<^verbatim>\<open>server/channelserver/sys_channel_server.go\<close> (the channel
  server: sessions, broadcasts, stages, semaphores, the Raviente event) and the guild
  membership file (\<^verbatim>\<open>GetCharacterGuildData\<close>).  Go's fixed-width unsigned integers are
  machine words, so \<open>+\<close> wraps around as in Go.  The mutexes are not modelled: a
  function that takes a lock for its whole body is one step on the server state.
\<close>

type_synonym u8 = "8 word"
type_synonym u16 = "16 word"
type_synonym u32 = "32 word"

text \<open>
  A \<^verbatim>\<open>net.Conn\<close> is an interface value: a connection is identified by a number and the
  nil interface value is \<open>None\<close>.  Pointers to sessions and servers are addresses
  (numbers); Go compares \<^verbatim>\<open>*Session\<close> and \<^verbatim>\<open>*Server\<close> by address.
\<close>

type_synonym conn = "nat option"
type_synonym addr = nat

text \<open>
  A Go \<^verbatim>\<open>map\<close> that the code ranges over is an association list: the entries in the
  order in which this run of \<^verbatim>\<open>range\<close> yields them (Go leaves that order unspecified, so
  every order is a possible run).  An assignment \<^verbatim>\<open>m[k] = v\<close> is \<open>AList.update k v\<close>,
  \<^verbatim>\<open>delete(m, k)\<close> is \<open>AList.delete k\<close>, and a lookup \<^verbatim>\<open>m[k]\<close> is \<open>map_of m k\<close>.
\<close>

text \<open>
  Modelled from the spec: the struct \<^verbatim>\<open>Session\<close> is declared outside the given sources.
  The spec gives it a connection identity, a character id and a per-session protocol
  context; the source reads \<^verbatim>\<open>session.charID\<close> (here \<open>sess_charID\<close>) and
  \<^verbatim>\<open>session.clientContext\<close>.  \<open>sess_addr\<close> is the address of the session value.
\<close>

record Session =
  sess_addr :: addr
  sess_charID :: u32
  clientContext :: nat

text \<open>
  Modelled from the spec: the struct \<^verbatim>\<open>Semaphore\<close> is declared outside the given
  sources.  The spec gives it a numeric id and the set of joined session identities; the
  source reads \<^verbatim>\<open>semaphore.id\<close> and \<^verbatim>\<open>len(raviSema.clients)\<close>.  The joined sessions
  are listed by address, one entry per joined session, so \<^verbatim>\<open>len\<close> is \<open>length\<close>.
\<close>

record Semaphore =
  id_sem :: u32
  clients :: "addr list"

text \<open>
  Modelled from the spec: the structs \<^verbatim>\<open>Object\<close> and \<^verbatim>\<open>Stage\<close> are declared outside
  the given sources.  An object has an object id and an owning character id; a stage
  has a string key and a map of objects keyed by object id.
\<close>

record Object =
  id_obj :: u32
  ownerCharID :: u32

record Stage =
  id_stage :: string
  objects :: "(u32 \<times> Object) list"

record RavienteRegister =
  nextTime :: u32
  startTime :: u32
  postTime :: u32
  killedTime :: u32
  ravienteType :: u32
  maxPlayers :: u32
  carveQuest :: u32
  register_slots :: "u32 list"

record RavienteState =
  stateData :: "u32 list"

record RavienteSupport =
  supportData :: "u32 list"

record Raviente =
  register :: RavienteRegister
  state :: RavienteState
  support :: RavienteSupport

text \<open>
  The state of the channel \<^verbatim>\<open>acceptConns\<close>: the source only sends on it, receives from
  it and closes it.
\<close>

datatype chan_state = Open | Closed

text \<open>
  The struct \<^verbatim>\<open>Server\<close>, with the fields the modelled functions read or write.
  \<open>srv_addr\<close> is the address of the server value; \<open>Channels\<close> is a slice of pointers
  to the cluster's channel servers, each an address or nil (\<open>None\<close>).
\<close>

record Server =
  srv_addr :: addr
  Channels :: "addr option list"
  ID :: u16
  acceptConns :: chan_state
  sessions :: "(conn \<times> Session) list"
  isShuttingDown :: bool
  stages :: "(string \<times> Stage) list"
  dict :: "string \<rightharpoonup> string"
  semaphore :: "(string \<times> Semaphore) list"
  semaphoreIndex :: u32
  name :: string
  raviente :: Raviente

text \<open>A Go run-time panic ends the call; it is a value of the result type.\<close>

datatype panic = DivideByZero | NilDereference

section \<open>The Raviente coordinator\<close>

definition NewRaviente :: Raviente where
  "NewRaviente =
     \<lparr>register = \<lparr>nextTime = 0, startTime = 0, postTime = 0, killedTime = 0,
                   ravienteType = 0, maxPlayers = 0, carveQuest = 0,
                   register_slots = [0, 0, 0, 0, 0]\<rparr>,
      state = \<lparr>stateData = replicate 29 0\<rparr>,
      support = \<lparr>supportData = replicate 25 0\<rparr>\<rparr>"

text \<open>
  \<^verbatim>\<open>GetRaviMultiplier\<close>.  The helper \<^verbatim>\<open>getRaviSemaphore\<close> is outside the given sources
  and is a parameter: it yields the Raviente semaphore of the server, or nil (\<open>None\<close>).
  \<^verbatim>\<open>minPlayers\<close> and \<^verbatim>\<open>len(raviSema.clients)\<close> are Go \<^verbatim>\<open>int\<close>s, the division is Go's
  integer division, which panics on a zero divisor.  The \<^verbatim>\<open>float64\<close> that is returned is
  the conversion of an integer between 0 and 24, which is exact; the model returns that
  integer.
\<close>

definition GetRaviMultiplier ::
  "(Server \<Rightarrow> Semaphore option) \<Rightarrow> Raviente \<Rightarrow> Server \<Rightarrow> panic + int" where
  "GetRaviMultiplier getRaviSemaphore r s =
     (case getRaviSemaphore s of
        Some raviSema \<Rightarrow>
          (let minPlayers = (if maxPlayers (register r) > 8 then 24 else 4 :: int)
           in if int (length (clients raviSema)) > minPlayers then Inr 1
              else if length (clients raviSema) = 0 then Inl DivideByZero
              else Inr (minPlayers div int (length (clients raviSema))))
      | None \<Rightarrow> Inr 0)"

section \<open>Construction of a channel server\<close>

text \<open>
  The struct \<^verbatim>\<open>Config\<close>: of its fields \<^verbatim>\<open>NewServer\<close> copies the id and the name into
  modelled fields of the server (the logger, database, bot and configuration handles go
  into fields that are not modelled).
\<close>

record Config =
  cfg_ID :: u16
  cfg_Name :: string

text \<open>
  \<^verbatim>\<open>NewServer\<close>.  The constructor \<^verbatim>\<open>NewStage\<close> and the loader \<^verbatim>\<open>getLangStrings\<close> are
  outside the given sources and are parameters; \<open>a\<close> is the address at which the new
  server value is allocated.  The channel \<^verbatim>\<open>acceptConns\<close> is made open, the slice
  \<^verbatim>\<open>Channels\<close> and the flag \<^verbatim>\<open>isShuttingDown\<close> have Go's zero values.
\<close>

definition NewServer ::
  "addr \<Rightarrow> (string \<Rightarrow> Stage) \<Rightarrow> (Server \<Rightarrow> string \<rightharpoonup> string) \<Rightarrow> Config \<Rightarrow> Server" where
  "NewServer a NewStage getLangStrings config =
     (let s = \<lparr>srv_addr = a, Channels = [], ID = cfg_ID config, acceptConns = Open,
                sessions = [], isShuttingDown = False, stages = [], dict = Map.empty,
                semaphore = [], semaphoreIndex = 7, name = cfg_Name config,
                raviente = NewRaviente\<rparr>;
          s = s\<lparr>stages := AList.update ''sl1Ns200p0a0u0'' (NewStage ''sl1Ns200p0a0u0'') (stages s)\<rparr>;
          s = s\<lparr>stages := AList.update ''sl1Ns211p0a0u0'' (NewStage ''sl1Ns211p0a0u0'') (stages s)\<rparr>;
          s = s\<lparr>stages := AList.update ''sl1Ns260p0a0u0'' (NewStage ''sl1Ns260p0a0u0'') (stages s)\<rparr>;
          s = s\<lparr>stages := AList.update ''sl1Ns262p0a0u0'' (NewStage ''sl1Ns262p0a0u0'') (stages s)\<rparr>;
          s = s\<lparr>stages := AList.update ''sl1Ns263p0a0u0'' (NewStage ''sl1Ns263p0a0u0'') (stages s)\<rparr>;
          s = s\<lparr>stages := AList.update ''sl2Ns379p0a0u0'' (NewStage ''sl2Ns379p0a0u0'') (stages s)\<rparr>;
          s = s\<lparr>stages := AList.update ''sl1Ns462p0a0u0'' (NewStage ''sl1Ns462p0a0u0'') (stages s)\<rparr>
      in s\<lparr>dict := getLangStrings s\<rparr>)"

section \<open>The semaphore identifier allocator\<close>

text \<open>
  The inner loop of \<^verbatim>\<open>NextSemaphoreID\<close>: it ranges over all semaphores and sets
  \<^verbatim>\<open>exists\<close> when one of them has the candidate id; it never leaves early.
\<close>

fun semaphore_scan :: "(string \<times> Semaphore) list \<Rightarrow> u32 \<Rightarrow> bool \<Rightarrow> bool" where
  "semaphore_scan [] idx exists = exists"
| "semaphore_scan ((k, sem) # rest) idx exists =
     semaphore_scan rest idx (if id_sem sem = idx then True else exists)"

text \<open>
  \<^verbatim>\<open>NextSemaphoreID\<close>.  The outer \<^verbatim>\<open>for\<close> has no bound: it runs until a candidate is
  held by no semaphore, so the function is partial and not returning is \<open>None\<close>.  The
  result is the id that is returned together with the server after the call (only the
  cursor \<^verbatim>\<open>semaphoreIndex\<close> is written).  The increment is on \<^verbatim>\<open>uint32\<close> and wraps.
\<close>

partial_function (option) NextSemaphoreID :: "Server \<Rightarrow> (u32 \<times> Server) option" where
  "NextSemaphoreID s =
     (let s = s\<lparr>semaphoreIndex := semaphoreIndex s + 1\<rparr>;
          s = (if semaphoreIndex s = 0 then s\<lparr>semaphoreIndex := 7\<rparr> else s);
          exists = semaphore_scan (semaphore s) (semaphoreIndex s) False
      in if exists = False then Some (semaphoreIndex s, s) else NextSemaphoreID s)"

section \<open>The stage and object registry\<close>

text \<open>
  The inner loop of \<^verbatim>\<open>FindObjectByChar\<close>: it ranges over the keys of \<^verbatim>\<open>stage.objects\<close>,
  looks each key up again (\<^verbatim>\<open>obj := stage.objects[objId]\<close>) and reads the owner through
  the pointer it gets; a key that is not in the map would give a nil pointer and the read
  would panic.  The result is the object found in this stage, if any.
\<close>

fun scan_objects :: "(u32 \<times> Object) list \<Rightarrow> u32 list \<Rightarrow> u32 \<Rightarrow> panic + Object option" where
  "scan_objects objs [] charID = Inr None"
| "scan_objects objs (objId # rest) charID =
     (case map_of objs objId of
        None \<Rightarrow> Inl NilDereference
      | Some obj \<Rightarrow>
          if ownerCharID obj = charID then Inr (Some obj)
          else scan_objects objs rest charID)"

text \<open>The outer loop, over the stages in the order \<^verbatim>\<open>range s.stages\<close> yields them.\<close>

fun scan_stages :: "(string \<times> Stage) list \<Rightarrow> u32 \<Rightarrow> panic + Object option" where
  "scan_stages [] charID = Inr None"
| "scan_stages ((k, stage) # rest) charID =
     (case scan_objects (objects stage) (map fst (objects stage)) charID of
        Inl p \<Rightarrow> Inl p
      | Inr (Some obj) \<Rightarrow> Inr (Some obj)
      | Inr None \<Rightarrow> scan_stages rest charID)"

definition FindObjectByChar :: "Server \<Rightarrow> u32 \<Rightarrow> panic + Object option" where
  "FindObjectByChar s charID = scan_stages (stages s) charID"

text \<open>All objects of all stages of a server, as the registry holds them.\<close>

definition all_objects :: "Server \<Rightarrow> Object list" where
  "all_objects s = concat (map (\<lambda>(k, stage). map snd (objects stage)) (stages s))"

text \<open>
  A Go map has one entry per key: the object maps of all stages of a well-formed server
  have distinct keys.
\<close>

definition wf_stages :: "Server \<Rightarrow> bool" where
  "wf_stages s = list_all (\<lambda>(k, stage). distinct (map fst (objects stage))) (stages s)"

section \<open>The broadcast engine\<close>

text \<open>
  The package \<^verbatim>\<open>byteframe\<close> and the helper \<^verbatim>\<open>pascalstring.Uint16\<close> are outside the
  given sources.  A byte frame is the sequence of the writes made to it since
  \<^verbatim>\<open>NewByteFrame()\<close>, which determines what \<^verbatim>\<open>Data()\<close> returns; \<open>ps_Uint16 x t\<close> is the
  call \<^verbatim>\<open>ps.Uint16(bf, x, t)\<close>.
\<close>

datatype bf_write =
    SetLE
  | WriteUint16 u16
  | WriteUint32 u32
  | WriteBytes "u8 list"
  | ps_Uint16 string bool

type_synonym ByteFrame = "bf_write list"

text \<open>
  The interface \<^verbatim>\<open>mhfpacket.MHFPacket\<close>: the two methods the broadcast calls.
  \<^verbatim>\<open>Build\<close> writes to the frame it is given, according to the client context; the
  broadcast ignores the error it may return.
\<close>

record 'pkt MHFPacket =
  Opcode :: "'pkt \<Rightarrow> u16"
  Build :: "'pkt \<Rightarrow> ByteFrame \<Rightarrow> nat \<Rightarrow> ByteFrame"

text \<open>
  The effect of a broadcast is the sequence of its calls of
  \<^verbatim>\<open>session.QueueSendNonBlocking(data)\<close>, each with the address of the session called
  and the data.
\<close>

datatype send = QueueSendNonBlocking (receiver: addr) (data: ByteFrame)

text \<open>
  The loop of \<^verbatim>\<open>BroadcastMHF\<close> over \<^verbatim>\<open>s.sessions\<close>; \<^verbatim>\<open>ignoredSession\<close> is a pointer
  that may be nil.
\<close>

fun BroadcastMHF_range ::
  "'pkt MHFPacket \<Rightarrow> 'pkt \<Rightarrow> addr option \<Rightarrow> (conn \<times> Session) list \<Rightarrow> send list" where
  "BroadcastMHF_range M pkt ignoredSession [] = []"
| "BroadcastMHF_range M pkt ignoredSession ((c, session) # rest) =
     (if Some (sess_addr session) = ignoredSession
      then BroadcastMHF_range M pkt ignoredSession rest
      else (let bf = [];
                bf = bf @ [WriteUint16 (Opcode M pkt)];
                bf = Build M pkt bf (clientContext session)
            in QueueSendNonBlocking (sess_addr session) bf
                 # BroadcastMHF_range M pkt ignoredSession rest))"

definition BroadcastMHF :: "'pkt MHFPacket \<Rightarrow> Server \<Rightarrow> 'pkt \<Rightarrow> addr option \<Rightarrow> send list" where
  "BroadcastMHF M s pkt ignoredSession = BroadcastMHF_range M pkt ignoredSession (sessions s)"

text \<open>
  The addresses of the sessions in a session map, entry by entry.  One session per
  connection means that they are distinct.
\<close>

definition session_addrs :: "(conn \<times> Session) list \<Rightarrow> addr list" where
  "session_addrs al = map (\<lambda>(c, session). sess_addr session) al"

text \<open>
  \<^verbatim>\<open>WorldcastMHF\<close>: the loop over \<^verbatim>\<open>s.Channels\<close>.  \<open>heap\<close> gives the server value at an
  address.  Calling \<^verbatim>\<open>BroadcastMHF\<close> through a nil pointer panics at its first statement,
  after the broadcasts to the channels before it have been made.  The result is the sends
  made, channel after channel, and the panic that ended the loop, if any.
\<close>

fun WorldcastMHF_range ::
  "'pkt MHFPacket \<Rightarrow> (addr \<Rightarrow> Server) \<Rightarrow> 'pkt \<Rightarrow> addr option \<Rightarrow> addr option \<Rightarrow>
   addr option list \<Rightarrow> send list \<times> panic option" where
  "WorldcastMHF_range M heap pkt ignoredSession ignoredChannel [] = ([], None)"
| "WorldcastMHF_range M heap pkt ignoredSession ignoredChannel (c # rest) =
     (if c = ignoredChannel
      then WorldcastMHF_range M heap pkt ignoredSession ignoredChannel rest
      else (case c of
              None \<Rightarrow> ([], Some NilDereference)
            | Some a \<Rightarrow>
                (let sends = BroadcastMHF M (heap a) pkt ignoredSession;
                     (later, p) = WorldcastMHF_range M heap pkt ignoredSession ignoredChannel rest
                 in (sends @ later, p))))"

definition WorldcastMHF ::
  "'pkt MHFPacket \<Rightarrow> (addr \<Rightarrow> Server) \<Rightarrow> Server \<Rightarrow> 'pkt \<Rightarrow> addr option \<Rightarrow> addr option \<Rightarrow>
   send list \<times> panic option" where
  "WorldcastMHF M heap s pkt ignoredSession ignoredChannel =
     WorldcastMHF_range M heap pkt ignoredSession ignoredChannel (Channels s)"

text \<open>The struct \<^verbatim>\<open>mhfpacket.MsgSysCastedBinary\<close>, with the fields the source sets.\<close>

record MsgSysCastedBinary =
  CharID :: u32
  BroadcastType :: u8
  MessageType :: u8
  RawDataPayload :: ByteFrame

text \<open>
  The constants \<^verbatim>\<open>BroadcastTypeServer\<close> and \<^verbatim>\<open>BinaryMessageTypeChat\<close> are declared outside
  the given sources; their values are parameters.
\<close>

record constants =
  BroadcastTypeServer :: u8
  BinaryMessageTypeChat :: u8

text \<open>A call of the logger: \<^verbatim>\<open>s.logger.Error(msg, fields...)\<close>.\<close>

datatype zap_field = Uint8 string u8 | Uint32 string u32 | Err string

datatype log_entry = LogError string "zap_field list"

text \<open>Indexing a Go \<^verbatim>\<open>map[string]string\<close>: a missing key gives the empty string.\<close>

definition index_dict :: "(string \<rightharpoonup> string) \<Rightarrow> string \<Rightarrow> string" where
  "index_dict d k = (case d k of None \<Rightarrow> [] | Some v \<Rightarrow> v)"

text \<open>
  \<^verbatim>\<open>BroadcastRaviente\<close>; the parameter \<^verbatim>\<open>_type\<close> is \<open>type_code\<close>.  The result is what
  was logged and the outcome of the worldcast.
\<close>

definition BroadcastRaviente ::
  "constants \<Rightarrow> MsgSysCastedBinary MHFPacket \<Rightarrow> (addr \<Rightarrow> Server) \<Rightarrow> Server \<Rightarrow>
   u32 \<Rightarrow> u16 \<Rightarrow> u8 list \<Rightarrow> u8 \<Rightarrow> log_entry list \<times> (send list \<times> panic option)" where
  "BroadcastRaviente C M heap s ip port stage type_code =
     (let bf = [];
          bf = bf @ [SetLE];
          bf = bf @ [WriteUint16 0];
          bf = bf @ [WriteUint16 0x43];
          bf = bf @ [WriteUint16 3];
          (text, logged) =
             (if type_code = 2 then (index_dict (dict s) ''ravienteBerserk'', [])
              else if type_code = 3 then (index_dict (dict s) ''ravienteExtreme'', [])
              else if type_code = 4 then (index_dict (dict s) ''ravienteExtremeLimited'', [])
              else if type_code = 5 then (index_dict (dict s) ''ravienteBerserkSmall'', [])
              else ([], [LogError ''Unk raviente type'' [Uint8 ''_type'' type_code]]));
          bf = bf @ [ps_Uint16 text True];
          bf = bf @ [WriteBytes [0x5F, 0x53, 0x00]];
          bf = bf @ [WriteUint32 ip];
          bf = bf @ [WriteUint16 port];
          bf = bf @ [WriteUint16 0];
          bf = bf @ [WriteBytes stage]
      in (logged,
          WorldcastMHF M heap s
            \<lparr>CharID = 0x00000000, BroadcastType = BroadcastTypeServer C,
             MessageType = BinaryMessageTypeChat C, RawDataPayload = bf\<rparr>
            None (Some (srv_addr s))))"

section \<open>The session manager and shutdown\<close>

text \<open>
  One round of the loop of \<^verbatim>\<open>manageSessions\<close>: the \<^verbatim>\<open>select\<close> has received a value from
  one of the two channels.  The constructor \<^verbatim>\<open>NewSession\<close> is outside the given sources
  and is a parameter.  The round either returns from the function, or registers the new
  session it constructed (and starts it), or removes an entry; the loop goes on after the
  last two.
\<close>

datatype received = from_acceptConns conn | from_deleteConns conn

datatype round = Returned Server | Registered Server Session | Removed Server

definition manageSessions_round ::
  "(Server \<Rightarrow> conn \<Rightarrow> Session) \<Rightarrow> Server \<Rightarrow> received \<Rightarrow> round" where
  "manageSessions_round NewSession s r =
     (case r of
        from_acceptConns newConn \<Rightarrow>
          if newConn = None \<and> isShuttingDown s then Returned s
          else (let session = NewSession s newConn
                in Registered (s\<lparr>sessions := AList.update newConn session (sessions s)\<rparr>) session)
      | from_deleteConns delConn \<Rightarrow>
          Removed (s\<lparr>sessions := AList.delete delConn (sessions s)\<rparr>))"

text \<open>
  The server together with the two activities that touch the shutdown flag and the
  channel \<^verbatim>\<open>acceptConns\<close>: where \<^verbatim>\<open>Shutdown\<close> stands (0 not called, 1 flag set, 2 listener
  closed, 3 channel closed) and whether \<^verbatim>\<open>manageSessions\<close> is still in its loop.
\<close>

record system =
  srv :: Server
  shutdown_pc :: nat
  managing :: bool

definition after_round :: "system \<Rightarrow> round \<Rightarrow> system" where
  "after_round \<sigma> r =
     (case r of
        Returned s \<Rightarrow> \<sigma>\<lparr>srv := s, managing := False\<rparr>
      | Registered s session \<Rightarrow> \<sigma>\<lparr>srv := s\<rparr>
      | Removed s \<Rightarrow> \<sigma>\<lparr>srv := s\<rparr>)"

text \<open>
  The states the server reaches from \<^verbatim>\<open>NewServer\<close> by the statements of \<^verbatim>\<open>Shutdown\<close>, in
  their order, interleaved with rounds of \<^verbatim>\<open>manageSessions\<close>.  A receive from the open
  channel yields a connection that \<^verbatim>\<open>acceptClients\<close> sent, which is not nil (it sends
  only what \<^verbatim>\<open>Accept\<close> returned without error); a receive from the closed channel yields
  nil.
\<close>

inductive reachable :: "(Server \<Rightarrow> conn \<Rightarrow> Session) \<Rightarrow> Server \<Rightarrow> system \<Rightarrow> bool"
  for NewSession :: "Server \<Rightarrow> conn \<Rightarrow> Session" and s0 :: Server where
  started: "reachable NewSession s0 \<lparr>srv = s0, shutdown_pc = 0, managing = True\<rparr>"
| shutdown_flag:
    "reachable NewSession s0 \<sigma> \<Longrightarrow> shutdown_pc \<sigma> = 0 \<Longrightarrow>
     reachable NewSession s0 (\<sigma>\<lparr>srv := (srv \<sigma>)\<lparr>isShuttingDown := True\<rparr>, shutdown_pc := 1\<rparr>)"
| shutdown_listener:
    "reachable NewSession s0 \<sigma> \<Longrightarrow> shutdown_pc \<sigma> = 1 \<Longrightarrow>
     reachable NewSession s0 (\<sigma>\<lparr>shutdown_pc := 2\<rparr>)"
| shutdown_close:
    "reachable NewSession s0 \<sigma> \<Longrightarrow> shutdown_pc \<sigma> = 2 \<Longrightarrow>
     reachable NewSession s0 (\<sigma>\<lparr>srv := (srv \<sigma>)\<lparr>acceptConns := Closed\<rparr>, shutdown_pc := 3\<rparr>)"
| accepted:
    "reachable NewSession s0 \<sigma> \<Longrightarrow> managing \<sigma> \<Longrightarrow> acceptConns (srv \<sigma>) = Open \<Longrightarrow>
     reachable NewSession s0
       (after_round \<sigma> (manageSessions_round NewSession (srv \<sigma>) (from_acceptConns (Some c))))"
| closed:
    "reachable NewSession s0 \<sigma> \<Longrightarrow> managing \<sigma> \<Longrightarrow> acceptConns (srv \<sigma>) = Closed \<Longrightarrow>
     reachable NewSession s0
       (after_round \<sigma> (manageSessions_round NewSession (srv \<sigma>) (from_acceptConns None)))"
| deleted:
    "reachable NewSession s0 \<sigma> \<Longrightarrow> managing \<sigma> \<Longrightarrow>
     reachable NewSession s0
       (after_round \<sigma> (manageSessions_round NewSession (srv \<sigma>) (from_deleteConns c)))"

section \<open>Guild membership data\<close>

record GuildMember =
  GuildID :: u32
  CharID_gm :: u32
  JoinedAt :: "nat option"
  Souls :: u32
  RPToday :: u16
  RPYesterday :: u16
  Name :: string
  IsApplicant :: bool
  OrderIndex :: u8
  LastLogin :: u32
  Recruiter :: bool
  AvoidLeadership :: bool
  IsLeader :: bool
  HRP :: u16
  GR :: u16
  WeaponID :: u16
  WeaponType :: u16

definition guildMembersSelectSQL :: string where
  "guildMembersSelectSQL = ''
SELECT
	g.id as guild_id,
	joined_at,
	coalesce(souls, 0) as souls,
	COALESCE(rp_today, 0) AS rp_today,
	COALESCE(rp_yesterday, 0) AS rp_yesterday,
	c.name,
	character.character_id,
	coalesce(gc.order_index, 0) as order_index,
	c.last_login,
	coalesce(gc.recruiter, false) as recruiter,
	coalesce(gc.avoid_leadership, false) as avoid_leadership,
	c.hrp,
	c.gr,
	c.weapon_id,
	c.weapon_type,
	character.is_applicant,
	CASE WHEN g.leader_id = c.id THEN 1 ELSE 0 END as is_leader
	FROM (
		SELECT character_id, true as is_applicant, guild_id
		FROM guild_applications ga
		WHERE ga.application_type = 'applied'
		UNION
		SELECT character_id, false as is_applicant, guild_id
		FROM guild_characters gc
	) character
	JOIN characters c on character.character_id = c.id
	LEFT JOIN guild_characters gc ON gc.character_id = character.character_id
	JOIN guilds g ON g.id = character.guild_id
''"

text \<open>
  The database library is not part of the repository.  An \<^verbatim>\<open>error\<close> is its message.  A
  row of a query result is what \<^verbatim>\<open>rows.StructScan\<close> makes of it: an error or the member
  it fills in.  \<^verbatim>\<open>db.Queryx(query, arg)\<close> yields an error or the rows of the result, and
  \<^verbatim>\<open>rows.Next()\<close> says whether there is a row.
\<close>

type_synonym error = string
type_synonym row = "error + GuildMember"
type_synonym Queryx = "string \<Rightarrow> u32 \<Rightarrow> error + row list"

text \<open>The verb \<^verbatim>\<open>%d\<close> of \<^verbatim>\<open>fmt.Sprintf\<close> on an unsigned number.\<close>

fun Sprintf_d :: "nat \<Rightarrow> string" where
  "Sprintf_d n =
     (if n < 10 then [char_of (48 + n)]
      else Sprintf_d (n div 10) @ [char_of (48 + n mod 10)])"

definition buildGuildMemberObjectFromDBResult ::
  "row \<Rightarrow> (GuildMember option \<times> error option) \<times> log_entry list" where
  "buildGuildMemberObjectFromDBResult r =
     (case r of
        Inl err \<Rightarrow>
          ((None, Some err),
           [LogError ''failed to retrieve guild data from database'' [Err err]])
      | Inr memberData \<Rightarrow> ((Some memberData, None), []))"

text \<open>
  \<^verbatim>\<open>GetCharacterGuildData\<close>: the pair it returns (member, error; nil is \<open>None\<close>) and what it
  logged.
\<close>

definition GetCharacterGuildData ::
  "Queryx \<Rightarrow> u32 \<Rightarrow> (GuildMember option \<times> error option) \<times> log_entry list" where
  "GetCharacterGuildData db_Queryx charID =
     (case db_Queryx (guildMembersSelectSQL @ ''	WHERE character.character_id=$1'') charID of
        Inl err \<Rightarrow>
          ((None, Some err),
           [LogError (''failed to retrieve membership data for character '' @ [CHR 0x27]
                        @ Sprintf_d (unat charID) @ [CHR 0x27]) []])
      | Inr rows \<Rightarrow>
          (let hasRow = (rows \<noteq> [])
           in if \<not> hasRow then ((None, None), [])
              else buildGuildMemberObjectFromDBResult (hd rows)))"

section \<open>Example states\<close>

text \<open>Concrete values on which the theorems below are instantiated.\<close>

definition example_NewStage :: "string \<Rightarrow> Stage" where
  "example_NewStage k = \<lparr>id_stage = k, objects = []\<rparr>"

definition example_server :: Server where
  "example_server =
     NewServer 1 example_NewStage (\<lambda>s. Map.empty) \<lparr>cfg_ID = 1, cfg_Name = ''channel''\<rparr>"

definition live_semaphores :: "(string \<times> Semaphore) list" where
  "live_semaphores =
     [(''hs_l0u3B51'', \<lparr>id_sem = 7, clients = [1]\<rparr>),
      (''hs_l0u3B52'', \<lparr>id_sem = 8, clients = []\<rparr>),
      (''quest'', \<lparr>id_sem = 10, clients = [2, 3]\<rparr>)]"

definition example_stages :: "(string \<times> Stage) list" where
  "example_stages =
     [(''sl1Ns200p0a0u0'',
       \<lparr>id_stage = ''sl1Ns200p0a0u0'',
        objects = [(1, \<lparr>id_obj = 1, ownerCharID = 10\<rparr>), (2, \<lparr>id_obj = 2, ownerCharID = 20\<rparr>)]\<rparr>),
      (''sl1Ns211p0a0u0'',
       \<lparr>id_stage = ''sl1Ns211p0a0u0'',
        objects = [(1, \<lparr>id_obj = 1, ownerCharID = 30\<rparr>)]\<rparr>)]"

definition example_sessions :: "(conn \<times> Session) list" where
  "example_sessions =
     [(Some 1, \<lparr>sess_addr = 100, sess_charID = 5, clientContext = 0\<rparr>),
      (Some 2, \<lparr>sess_addr = 200, sess_charID = 6, clientContext = 1\<rparr>),
      (Some 3, \<lparr>sess_addr = 300, sess_charID = 0, clientContext = 0\<rparr>)]"

definition example_packets :: "u32 MHFPacket" where
  "example_packets =
     \<lparr>Opcode = (\<lambda>pkt. 0x10),
      Build = (\<lambda>pkt bf ctx. bf @ (if ctx = 1 then [SetLE] else []) @ [WriteUint32 pkt])\<rparr>"

definition example_constants :: constants where
  "example_constants = \<lparr>BroadcastTypeServer = 6, BinaryMessageTypeChat = 1\<rparr>"

definition example_casted_binary :: "MsgSysCastedBinary MHFPacket" where
  "example_casted_binary =
     \<lparr>Opcode = (\<lambda>pkt. 0x1B),
      Build = (\<lambda>pkt bf ctx.
                 bf @ [WriteUint32 (CharID pkt), WriteUint16 (of_nat ctx)] @ RawDataPayload pkt)\<rparr>"

definition example_cluster :: "addr \<Rightarrow> Server" where
  "example_cluster a =
     (if a = 2 then example_server\<lparr>srv_addr := 2, sessions := take 2 example_sessions\<rparr>
      else example_server)"

definition example_announcer :: Server where
  "example_announcer =
     example_server\<lparr>Channels := [Some 1, Some 2],
                    dict := [''ravienteBerserk'' \<mapsto> ''Berserk'']\<rparr>"

definition example_payload :: "string \<Rightarrow> ByteFrame" where
  "example_payload text =
     [SetLE, WriteUint16 0, WriteUint16 0x43, WriteUint16 3, ps_Uint16 text True,
      WriteBytes [0x5F, 0x53, 0x00], WriteUint32 0x7F000001, WriteUint16 54001,
      WriteUint16 0, WriteBytes [1, 2]]"

definition example_NewSession :: "Server \<Rightarrow> conn \<Rightarrow> Session" where
  "example_NewSession s c =
     \<lparr>sess_addr = 100 + length (sessions s), sess_charID = 0, clientContext = 0\<rparr>"

definition example_shutdown :: system where
  "example_shutdown =
     \<lparr>srv = example_server
        \<lparr>sessions := [(Some 5, \<lparr>sess_addr = 100, sess_charID = 0, clientContext = 0\<rparr>)],
         isShuttingDown := True, acceptConns := Closed\<rparr>,
      shutdown_pc = 3, managing = True\<rparr>"

section \<open>Properties of the Raviente multiplier\<close>

lemma floor_div_nat: "\<lfloor>real_of_int k / real n\<rfloor> = k div int n"
  using floor_divide_of_int_eq [of k "int n", where ?'a = real] by simp

text \<open>
  Claim C1, amended.  \<^verbatim>\<open>GetRaviMultiplier\<close> returns 0 when no Raviente semaphore is
  associated.  When the semaphore exists, the threshold is 24 if \<^verbatim>\<open>maxPlayers\<close> exceeds 8
  and 4 otherwise; the result is exactly 1 when the occupancy strictly exceeds the
  threshold, and when the occupancy is at least 1 and at most the threshold it is the
  floor of the threshold divided by the occupancy.  (The claim as stated has no lower
  bound on the occupancy.)
\<close>

theorem GetRaviMultiplier_value:
  "(g s = None \<longrightarrow> GetRaviMultiplier g r s = Inr 0) \<and>
   (\<forall>sem thr. g s = Some sem \<and> thr = (if 8 < maxPlayers (register r) then 24 else 4) \<longrightarrow>
      (thr < int (length (clients sem)) \<longrightarrow> GetRaviMultiplier g r s = Inr 1) \<and>
      (0 < length (clients sem) \<and> int (length (clients sem)) \<le> thr \<longrightarrow>
         GetRaviMultiplier g r s = Inr \<lfloor>real_of_int thr / real (length (clients sem))\<rfloor>))"
  by (simp add: GetRaviMultiplier_def floor_div_nat)

theorem GetRaviMultiplier_value_witness:
  "GetRaviMultiplier (\<lambda>s. None) NewRaviente example_server = Inr 0 \<and>
   GetRaviMultiplier (\<lambda>s. Some \<lparr>id_sem = 3, clients = [1, 2, 3, 4, 5]\<rparr>)
     NewRaviente example_server = Inr 1 \<and>
   GetRaviMultiplier (\<lambda>s. Some \<lparr>id_sem = 3, clients = [1, 2]\<rparr>)
     NewRaviente example_server = Inr 2"
  using GetRaviMultiplier_value [of "\<lambda>s. None" example_server NewRaviente]
    GetRaviMultiplier_value
      [of "\<lambda>s. Some \<lparr>id_sem = 3, clients = [1, 2, 3, 4, 5]\<rparr>" example_server NewRaviente]
    GetRaviMultiplier_value
      [of "\<lambda>s. Some \<lparr>id_sem = 3, clients = [1, 2]\<rparr>" example_server NewRaviente]
  by (simp add: NewRaviente_def)

text \<open>
  Claim C1 as stated fails for a semaphore that exists and has no joined session: the
  call does not return the floor of a quotient, it panics on the division.
\<close>

theorem GetRaviMultiplier_empty_semaphore:
  "GetRaviMultiplier (\<lambda>s. Some \<lparr>id_sem = 3, clients = []\<rparr>) NewRaviente example_server
     = Inl DivideByZero"
  by (simp add: GetRaviMultiplier_def NewRaviente_def)

text \<open>
  Claim C9.  The division in \<^verbatim>\<open>GetRaviMultiplier\<close> is unguarded: when the Raviente
  semaphore exists, the call hits a zero divisor exactly when the semaphore has no
  joined session, and it returns a value exactly when it has at least one; without a
  semaphore the division is not reached.
\<close>

theorem GetRaviMultiplier_zero_divisor:
  "(g s = None \<longrightarrow> GetRaviMultiplier g r s = Inr 0) \<and>
   (\<forall>sem. g s = Some sem \<longrightarrow>
      (GetRaviMultiplier g r s = Inl DivideByZero) = (length (clients sem) = 0) \<and>
      (\<exists>v. GetRaviMultiplier g r s = Inr v) = (0 < length (clients sem)))"
  by (simp add: GetRaviMultiplier_def)

theorem GetRaviMultiplier_zero_divisor_witness:
  "GetRaviMultiplier (\<lambda>s. Some \<lparr>id_sem = 3, clients = []\<rparr>)
     (raviente example_server) example_server = Inl DivideByZero \<and>
   GetRaviMultiplier (\<lambda>s. Some \<lparr>id_sem = 3, clients = [7]\<rparr>)
     (raviente example_server) example_server \<noteq> Inl DivideByZero"
  using GetRaviMultiplier_zero_divisor
          [of "\<lambda>s. Some \<lparr>id_sem = 3, clients = []\<rparr>" example_server "raviente example_server"]
        GetRaviMultiplier_zero_divisor
          [of "\<lambda>s. Some \<lparr>id_sem = 3, clients = [7]\<rparr>" example_server "raviente example_server"]
  by simp

section \<open>Properties of the constructor\<close>

lemma NewServer_semaphores:
  "semaphoreIndex (NewServer a NewStage getLangStrings config) = 7 \<and>
   semaphore (NewServer a NewStage getLangStrings config) = []"
  by (simp add: NewServer_def)

text \<open>
  Claim C8.  \<^verbatim>\<open>NewServer\<close> seeds the stage registry with exactly 7 stages, under 7
  distinct well-known keys, each made by \<^verbatim>\<open>NewStage\<close> from its key.
\<close>

theorem NewServer_stages:
  "map fst (stages (NewServer a NewStage getLangStrings config)) =
     [''sl1Ns200p0a0u0'', ''sl1Ns211p0a0u0'', ''sl1Ns260p0a0u0'', ''sl1Ns262p0a0u0'',
      ''sl1Ns263p0a0u0'', ''sl2Ns379p0a0u0'', ''sl1Ns462p0a0u0''] \<and>
   length (stages (NewServer a NewStage getLangStrings config)) = 7 \<and>
   distinct (map fst (stages (NewServer a NewStage getLangStrings config))) \<and>
   map snd (stages (NewServer a NewStage getLangStrings config)) =
     map NewStage (map fst (stages (NewServer a NewStage getLangStrings config)))"
  by (simp add: NewServer_def)

theorem NewServer_stages_witness:
  "length (stages example_server) = 7 \<and> distinct (map fst (stages example_server))"
  using NewServer_stages
          [of 1 example_NewStage "\<lambda>s. Map.empty" "\<lparr>cfg_ID = 1, cfg_Name = ''channel''\<rparr>"]
  unfolding example_server_def by simp

section \<open>Properties of the semaphore identifier allocator\<close>

lemma semaphore_scan_iff:
  "semaphore_scan sems idx ex = (ex \<or> idx \<in> id_sem ` snd ` set sems)"
proof (induction sems idx ex rule: semaphore_scan.induct)
  case (1 idx ex)
  show ?case by simp
next
  case (2 k sem rest idx ex)
  show ?case
  proof (cases "id_sem sem = idx")
    case True
    with 2 show ?thesis by (simp add: image_iff)
  next
    case False
    with 2 show ?thesis by (simp add: image_iff)
  qed
qed

lemma NextSemaphoreID_unfold:
  "NextSemaphoreID s =
     (let c = (if semaphoreIndex s + 1 = 0 then 7 else semaphoreIndex s + 1)
      in if c \<in> id_sem ` snd ` set (semaphore s)
         then NextSemaphoreID (s\<lparr>semaphoreIndex := c\<rparr>)
         else Some (c, s\<lparr>semaphoreIndex := c\<rparr>))"
  by (subst NextSemaphoreID.simps) (simp add: Let_def semaphore_scan_iff)

lemma NextSemaphoreID_ascending:
  fixes f :: u32
  assumes "semaphoreIndex s < f" and "f \<notin> id_sem ` snd ` set (semaphore s)"
  shows "\<exists>r. NextSemaphoreID s = Some (r, s\<lparr>semaphoreIndex := r\<rparr>) \<and>
              semaphoreIndex s < r \<and> r \<le> f \<and> r \<notin> id_sem ` snd ` set (semaphore s) \<and>
              (\<forall>j. semaphoreIndex s < j \<and> j < r \<longrightarrow> j \<in> id_sem ` snd ` set (semaphore s))"
  using assms
proof (induction "unat f - unat (semaphoreIndex s)" arbitrary: s rule: less_induct)
  case less
  let ?c = "semaphoreIndex s"
  let ?H = "id_sem ` snd ` set (semaphore s)"
  from less.prems have nz: "?c + 1 \<noteq> 0" by unat_arith
  have lt: "?c < ?c + 1" using nz by unat_arith
  have le: "?c + 1 \<le> f" using less.prems(1) by unat_arith
  show ?case
  proof (cases "?c + 1 \<in> ?H")
    case False
    have "\<forall>j. ?c < j \<and> j < ?c + 1 \<longrightarrow> j \<in> ?H" by unat_arith
    with False nz lt le show ?thesis
      by (subst NextSemaphoreID_unfold) (simp add: Let_def)
  next
    case True
    let ?s' = "s\<lparr>semaphoreIndex := ?c + 1\<rparr>"
    from True less.prems(2) have "?c + 1 \<noteq> f" by auto
    with le have lt': "semaphoreIndex ?s' < f" by simp
    have m: "unat f - unat (semaphoreIndex ?s') < unat f - unat ?c"
      using lt' nz by simp unat_arith
    from less.hyps [OF m lt'] less.prems(2)
    obtain r where r: "NextSemaphoreID ?s' = Some (r, s\<lparr>semaphoreIndex := r\<rparr>)"
      "?c + 1 < r" "r \<le> f" "r \<notin> ?H" "\<forall>j. ?c + 1 < j \<and> j < r \<longrightarrow> j \<in> ?H"
      by auto
    have "\<forall>j. ?c < j \<and> j < r \<longrightarrow> j \<in> ?H"
    proof (intro allI impI)
      fix j assume j: "?c < j \<and> j < r"
      then have "j = ?c + 1 \<or> ?c + 1 < j" by unat_arith
      with True r(5) j show "j \<in> ?H" by auto
    qed
    moreover have "?c < r" using lt r(2) by simp
    ultimately show ?thesis using True nz r
      by (subst NextSemaphoreID_unfold) (simp add: Let_def)
  qed
qed

lemma NextSemaphoreID_wrapping:
  fixes f :: u32
  assumes "\<forall>j. semaphoreIndex s < j \<longrightarrow> j \<in> id_sem ` snd ` set (semaphore s)"
    and "7 \<le> f" and "f \<notin> id_sem ` snd ` set (semaphore s)"
  shows "\<exists>r. NextSemaphoreID s = Some (r, s\<lparr>semaphoreIndex := r\<rparr>) \<and>
              7 \<le> r \<and> r \<le> f \<and> r \<notin> id_sem ` snd ` set (semaphore s) \<and>
              (\<forall>j. 7 \<le> j \<and> j < r \<longrightarrow> j \<in> id_sem ` snd ` set (semaphore s))"
  using assms
proof (induction "2 ^ 32 - unat (semaphoreIndex s)" arbitrary: s rule: less_induct)
  case less
  let ?c = "semaphoreIndex s"
  let ?H = "id_sem ` snd ` set (semaphore s)"
  show ?case
  proof (cases "?c + 1 = 0")
    case True
    show ?thesis
    proof (cases "7 \<in> ?H")
      case False
      have "\<forall>j::u32. 7 \<le> j \<and> j < 7 \<longrightarrow> j \<in> ?H" by (auto dest: leD)
      with True False less.prems(2) show ?thesis
        by (subst NextSemaphoreID_unfold) (simp add: Let_def)
    next
      case seven: True
      let ?s' = "s\<lparr>semaphoreIndex := 7\<rparr>"
      from seven less.prems have "semaphoreIndex ?s' < f"
        by (cases "f = 7") auto
      with less.prems(3)
      have "\<exists>r. NextSemaphoreID ?s' = Some (r, ?s'\<lparr>semaphoreIndex := r\<rparr>) \<and>
              semaphoreIndex ?s' < r \<and> r \<le> f \<and> r \<notin> id_sem ` snd ` set (semaphore ?s') \<and>
              (\<forall>j. semaphoreIndex ?s' < j \<and> j < r \<longrightarrow> j \<in> id_sem ` snd ` set (semaphore ?s'))"
        by (intro NextSemaphoreID_ascending) simp_all
      then obtain r where r: "NextSemaphoreID ?s' = Some (r, s\<lparr>semaphoreIndex := r\<rparr>)"
        "7 < r" "r \<le> f" "r \<notin> ?H" "\<forall>j. 7 < j \<and> j < r \<longrightarrow> j \<in> ?H"
        by auto
      have "\<forall>j. 7 \<le> j \<and> j < r \<longrightarrow> j \<in> ?H"
      proof (intro allI impI)
        fix j :: u32 assume "7 \<le> j \<and> j < r"
        then have "j = 7 \<or> 7 < j \<and> j < r" by auto
        with seven r(5) show "j \<in> ?H" by auto
      qed
      with True seven r show ?thesis
        by (subst NextSemaphoreID_unfold) (simp add: Let_def)
    qed
  next
    case False
    let ?s' = "s\<lparr>semaphoreIndex := ?c + 1\<rparr>"
    have lt: "?c < ?c + 1" using False by unat_arith
    with less.prems(1) have held: "?c + 1 \<in> ?H" by blast
    have "unat ?c < unat (?c + 1)" using lt by (simp add: word_less_nat_alt)
    moreover have "unat (?c + 1) < 2 ^ LENGTH(32)" by (rule unsigned_less)
    ultimately have m: "2 ^ 32 - unat (semaphoreIndex ?s') < 2 ^ 32 - unat ?c"
      by simp
    have all': "\<forall>j. semaphoreIndex ?s' < j \<longrightarrow> j \<in> id_sem ` snd ` set (semaphore ?s')"
      using less.prems(1) lt by auto
    from less.hyps [OF m all' less.prems(2)] less.prems(3)
    obtain r where r: "NextSemaphoreID ?s' = Some (r, s\<lparr>semaphoreIndex := r\<rparr>)"
      "7 \<le> r" "r \<le> f" "r \<notin> ?H" "\<forall>j. 7 \<le> j \<and> j < r \<longrightarrow> j \<in> ?H"
      by auto
    with False held show ?thesis
      by (subst NextSemaphoreID_unfold) (simp add: Let_def)
  qed
qed

text \<open>
  Claim C2.  The cursor of a server is at least 7: \<^verbatim>\<open>NewServer\<close> sets it to 7 and only
  \<^verbatim>\<open>NextSemaphoreID\<close> writes it, leaving it at the id it returns.  The reserved low range
  is the ids below 7, and a free id is an id from 7 on that no live semaphore holds.  If
  a free id exists, \<^verbatim>\<open>NextSemaphoreID\<close> returns: the id \<open>r\<close> it returns is held by no live
  semaphore and is not reserved, and only the cursor changes, to \<open>r\<close>.  The id is
  determined: it is the first free id above the cursor when there is one, and otherwise
  the search wraps past the top of the 32-bit range to 7, not to 0, and \<open>r\<close> is the first
  free id from 7 on; in particular from the cursor \<open>0xFFFFFFFF\<close> the id 7 is returned
  when it is free.
\<close>

theorem NextSemaphoreID_fresh:
  fixes f :: u32
  assumes "7 \<le> semaphoreIndex s" and "7 \<le> f"
    and "f \<notin> id_sem ` snd ` set (semaphore s)"
  shows "\<exists>r. NextSemaphoreID s = Some (r, s\<lparr>semaphoreIndex := r\<rparr>) \<and>
              r \<notin> id_sem ` snd ` set (semaphore s) \<and>
              7 \<le> r \<and>
              (if \<exists>j. semaphoreIndex s < j \<and> j \<notin> id_sem ` snd ` set (semaphore s)
               then semaphoreIndex s < r \<and>
                    (\<forall>j. semaphoreIndex s < j \<and> j < r \<longrightarrow> j \<in> id_sem ` snd ` set (semaphore s))
               else \<forall>j. 7 \<le> j \<and> j < r \<longrightarrow> j \<in> id_sem ` snd ` set (semaphore s)) \<and>
              (semaphoreIndex s = 0xFFFFFFFF \<and> 7 \<notin> id_sem ` snd ` set (semaphore s) \<longrightarrow> r = 7)"
proof (cases "\<exists>j. semaphoreIndex s < j \<and> j \<notin> id_sem ` snd ` set (semaphore s)")
  case True
  then obtain j where j: "semaphoreIndex s < j" "j \<notin> id_sem ` snd ` set (semaphore s)"
    by blast
  have top: "semaphoreIndex s \<noteq> 0xFFFFFFFF"
  proof
    assume "semaphoreIndex s = 0xFFFFFFFF"
    then have "semaphoreIndex s = - 1" by simp
    with j(1) show False by simp
  qed
  from NextSemaphoreID_ascending [OF j]
  obtain r where r: "NextSemaphoreID s = Some (r, s\<lparr>semaphoreIndex := r\<rparr>)"
    "semaphoreIndex s < r" "r \<notin> id_sem ` snd ` set (semaphore s)"
    "\<forall>j. semaphoreIndex s < j \<and> j < r \<longrightarrow> j \<in> id_sem ` snd ` set (semaphore s)"
    by blast
  from r(2) assms(1) have "7 \<le> r" by simp
  with True r top show ?thesis by simp
next
  case False
  then have all: "\<forall>j. semaphoreIndex s < j \<longrightarrow> j \<in> id_sem ` snd ` set (semaphore s)"
    by blast
  from NextSemaphoreID_wrapping [OF all assms(2,3)]
  obtain r where r: "NextSemaphoreID s = Some (r, s\<lparr>semaphoreIndex := r\<rparr>)"
    "7 \<le> r" "r \<notin> id_sem ` snd ` set (semaphore s)"
    "\<forall>j. 7 \<le> j \<and> j < r \<longrightarrow> j \<in> id_sem ` snd ` set (semaphore s)"
    by blast
  have "7 \<notin> id_sem ` snd ` set (semaphore s) \<longrightarrow> r = 7"
  proof
    assume "7 \<notin> id_sem ` snd ` set (semaphore s)"
    with r(4) have "\<not> 7 < r" by auto
    with r(2) show "r = 7" by simp
  qed
  with False r show ?thesis by auto
qed

theorem NextSemaphoreID_fresh_witness:
  "NextSemaphoreID (example_server\<lparr>semaphore := live_semaphores, semaphoreIndex := 0xFFFFFFFF\<rparr>)
     = Some (9, example_server\<lparr>semaphore := live_semaphores, semaphoreIndex := 9\<rparr>)"
proof -
  let ?s = "example_server\<lparr>semaphore := live_semaphores, semaphoreIndex := 0xFFFFFFFF\<rparr>"
  have H: "id_sem ` snd ` set (semaphore ?s) = {7, 8, 10}"
    by (auto simp: live_semaphores_def)
  have a: "7 \<le> semaphoreIndex ?s" by simp
  have b: "(7::u32) \<le> 9" by simp
  have c: "9 \<notin> id_sem ` snd ` set (semaphore ?s)" unfolding H by simp
  have "(0xFFFFFFFF :: u32) = - 1" by simp
  then have "\<not> (0xFFFFFFFF :: u32) < j" for j
    by (simp only: word_order.extremum_strict not_False_eq_True)
  then have top: "\<not> (\<exists>j. semaphoreIndex ?s < j \<and> j \<notin> id_sem ` snd ` set (semaphore ?s))"
    by simp
  from NextSemaphoreID_fresh [OF a b c]
  obtain r where r: "NextSemaphoreID ?s = Some (r, ?s\<lparr>semaphoreIndex := r\<rparr>)"
    "r \<notin> id_sem ` snd ` set (semaphore ?s)" "7 \<le> r"
    and ite: "if \<exists>j. semaphoreIndex ?s < j \<and> j \<notin> id_sem ` snd ` set (semaphore ?s)
      then semaphoreIndex ?s < r \<and>
           (\<forall>j. semaphoreIndex ?s < j \<and> j < r \<longrightarrow> j \<in> id_sem ` snd ` set (semaphore ?s))
      else \<forall>j. 7 \<le> j \<and> j < r \<longrightarrow> j \<in> id_sem ` snd ` set (semaphore ?s)"
    by blast
  from ite have r4: "\<forall>j. 7 \<le> j \<and> j < r \<longrightarrow> j \<in> id_sem ` snd ` set (semaphore ?s)"
    unfolding if_not_P [OF top] .
  have "\<not> 9 < r" using r4 c by auto
  moreover have "r \<noteq> 7" "r \<noteq> 8" using r(2) unfolding H by auto
  ultimately have "r = 9" using r(3) by unat_arith
  with r(1) show ?thesis by simp
qed

text \<open>
  Claim C7.  On a freshly constructed server the cursor is 7 and there is no live
  semaphore, and three calls of \<^verbatim>\<open>NextSemaphoreID\<close> in sequence return 8, 9 and 10,
  three different ids.
\<close>

theorem NextSemaphoreID_three_calls:
  "semaphoreIndex (NewServer a NewStage getLangStrings config) = 7 \<and>
   semaphore (NewServer a NewStage getLangStrings config) = [] \<and>
   Option.bind (NextSemaphoreID (NewServer a NewStage getLangStrings config)) (\<lambda>(id1, s1).
     Option.bind (NextSemaphoreID s1) (\<lambda>(id2, s2).
       Option.bind (NextSemaphoreID s2) (\<lambda>(id3, s3). Some ([id1, id2, id3], s3))))
     = Some ([8, 9, 10], (NewServer a NewStage getLangStrings config)\<lparr>semaphoreIndex := 10\<rparr>) \<and>
   distinct [8, 9, 10 :: u32]"
proof -
  let ?s0 = "NewServer a NewStage getLangStrings config"
  have 0: "semaphoreIndex ?s0 = 7" "semaphore ?s0 = []"
    by (simp_all add: NewServer_semaphores)
  have 1: "NextSemaphoreID ?s0 = Some (8, ?s0\<lparr>semaphoreIndex := 8\<rparr>)"
    by (subst NextSemaphoreID_unfold) (simp add: 0)
  have 2: "NextSemaphoreID (?s0\<lparr>semaphoreIndex := 8\<rparr>) = Some (9, ?s0\<lparr>semaphoreIndex := 9\<rparr>)"
    by (subst NextSemaphoreID_unfold) (simp add: 0)
  have 3: "NextSemaphoreID (?s0\<lparr>semaphoreIndex := 9\<rparr>) = Some (10, ?s0\<lparr>semaphoreIndex := 10\<rparr>)"
    by (subst NextSemaphoreID_unfold) (simp add: 0)
  from 0 1 2 3 show ?thesis by simp
qed

theorem NextSemaphoreID_three_calls_witness:
  "Option.bind (NextSemaphoreID example_server) (\<lambda>(id1, s1).
     Option.bind (NextSemaphoreID s1) (\<lambda>(id2, s2).
       Option.bind (NextSemaphoreID s2) (\<lambda>(id3, s3). Some ([id1, id2, id3], s3))))
     = Some ([8, 9, 10], example_server\<lparr>semaphoreIndex := 10\<rparr>)"
  using NextSemaphoreID_three_calls
          [of 1 example_NewStage "\<lambda>s. Map.empty" "\<lparr>cfg_ID = 1, cfg_Name = ''channel''\<rparr>"]
  unfolding example_server_def by simp

section \<open>Properties of the object lookup\<close>

lemma scan_objects_result:
  assumes "set ks \<subseteq> fst ` set objs"
  shows "\<exists>r. scan_objects objs ks c = Inr r \<and>
           (case r of
              None \<Rightarrow> \<forall>k \<in> set ks. \<forall>ob. map_of objs k = Some ob \<longrightarrow> ownerCharID ob \<noteq> c
            | Some ob \<Rightarrow> ob \<in> snd ` set objs \<and> ownerCharID ob = c)"
  using assms
proof (induction ks)
  case Nil
  show ?case by simp
next
  case (Cons k ks)
  from Cons.prems have "k \<in> fst ` set objs" by simp
  then obtain ob where ob: "map_of objs k = Some ob"
    by (cases "map_of objs k") (auto simp: map_of_eq_None_iff)
  then have mem: "ob \<in> snd ` set objs"
    by (force dest: map_of_SomeD)
  show ?case
  proof (cases "ownerCharID ob = c")
    case True
    with ob mem show ?thesis by simp
  next
    case False
    from Cons.prems have "set ks \<subseteq> fst ` set objs" by simp
    from Cons.IH [OF this] obtain r where
      r: "scan_objects objs ks c = Inr r"
         "case r of
            None \<Rightarrow> \<forall>k \<in> set ks. \<forall>ob. map_of objs k = Some ob \<longrightarrow> ownerCharID ob \<noteq> c
          | Some ob \<Rightarrow> ob \<in> snd ` set objs \<and> ownerCharID ob = c"
      by blast
    with ob False show ?thesis by (cases r) auto
  qed
qed

lemma scan_objects_stage:
  "\<exists>r. scan_objects objs (map fst objs) c = Inr r \<and>
       (case r of
          None \<Rightarrow> \<forall>ob \<in> snd ` set objs. distinct (map fst objs) \<longrightarrow> ownerCharID ob \<noteq> c
        | Some ob \<Rightarrow> ob \<in> snd ` set objs \<and> ownerCharID ob = c)"
proof -
  have "set (map fst objs) \<subseteq> fst ` set objs" by simp
  from scan_objects_result [OF this, of c] obtain r where
    r: "scan_objects objs (map fst objs) c = Inr r"
       "case r of
          None \<Rightarrow> \<forall>k \<in> set (map fst objs). \<forall>ob. map_of objs k = Some ob \<longrightarrow> ownerCharID ob \<noteq> c
        | Some ob \<Rightarrow> ob \<in> snd ` set objs \<and> ownerCharID ob = c"
    by blast
  show ?thesis
  proof (cases r)
    case None
    have "ownerCharID ob \<noteq> c" if "ob \<in> snd ` set objs" "distinct (map fst objs)" for ob
    proof -
      from that(1) obtain k where k: "(k, ob) \<in> set objs" by auto
      with that(2) have "map_of objs k = Some ob" by simp
      moreover from k have "k \<in> set (map fst objs)" by force
      ultimately show ?thesis using r(2) None by auto
    qed
    with r(1) None show ?thesis by auto
  next
    case (Some ob)
    with r show ?thesis by simp
  qed
qed

lemma scan_stages_result:
  "\<exists>r. scan_stages stgs c = Inr r \<and>
       (case r of
          None \<Rightarrow> list_all (\<lambda>(k, stage). distinct (map fst (objects stage))) stgs \<longrightarrow>
                   (\<forall>ob \<in> set (concat (map (\<lambda>(k, stage). map snd (objects stage)) stgs)).
                      ownerCharID ob \<noteq> c)
        | Some ob \<Rightarrow> ob \<in> set (concat (map (\<lambda>(k, stage). map snd (objects stage)) stgs)) \<and>
                     ownerCharID ob = c)"
proof (induction stgs)
  case Nil
  show ?case by simp
next
  case (Cons p stgs)
  obtain k stage where p: "p = (k, stage)" by (cases p)
  from scan_objects_stage [of "objects stage" c] obtain r1 where
    r1: "scan_objects (objects stage) (map fst (objects stage)) c = Inr r1"
        "case r1 of
           None \<Rightarrow> \<forall>ob \<in> snd ` set (objects stage).
                     distinct (map fst (objects stage)) \<longrightarrow> ownerCharID ob \<noteq> c
         | Some ob \<Rightarrow> ob \<in> snd ` set (objects stage) \<and> ownerCharID ob = c"
    by blast
  show ?case
  proof (cases r1)
    case (Some ob)
    with r1 p show ?thesis by simp
  next
    case None
    from Cons.IH obtain r where
      r: "scan_stages stgs c = Inr r"
         "case r of
            None \<Rightarrow> list_all (\<lambda>(k, stage). distinct (map fst (objects stage))) stgs \<longrightarrow>
                     (\<forall>ob \<in> set (concat (map (\<lambda>(k, stage). map snd (objects stage)) stgs)).
                        ownerCharID ob \<noteq> c)
          | Some ob \<Rightarrow> ob \<in> set (concat (map (\<lambda>(k, stage). map snd (objects stage)) stgs)) \<and>
                       ownerCharID ob = c"
      by blast
    show ?thesis
    proof (cases r)
      case rNone: None
      with r r1 None p show ?thesis by auto
    next
      case (Some ob)
      with r r1 None p show ?thesis by auto
    qed
  qed
qed


lemma scan_stages_Some:
  assumes "scan_stages stgs c = Inr (Some ob)"
  shows "ob \<in> set (concat (map (\<lambda>(k, stage). map snd (objects stage)) stgs)) \<and>
         ownerCharID ob = c"
proof -
  from scan_stages_result [of stgs c] obtain r where
    r: "scan_stages stgs c = Inr r"
       "case r of
          None \<Rightarrow> list_all (\<lambda>(k, stage). distinct (map fst (objects stage))) stgs \<longrightarrow>
                   (\<forall>ob \<in> set (concat (map (\<lambda>(k, stage). map snd (objects stage)) stgs)).
                      ownerCharID ob \<noteq> c)
        | Some ob \<Rightarrow> ob \<in> set (concat (map (\<lambda>(k, stage). map snd (objects stage)) stgs)) \<and>
                     ownerCharID ob = c"
    by blast
  from r(1) assms have "r = Some ob" by simp
  with r(2) show ?thesis by simp
qed

lemma scan_stages_None:
  assumes "scan_stages stgs c = Inr None"
    and "list_all (\<lambda>(k, stage). distinct (map fst (objects stage))) stgs"
  shows "\<forall>ob \<in> set (concat (map (\<lambda>(k, stage). map snd (objects stage)) stgs)).
           ownerCharID ob \<noteq> c"
proof -
  from scan_stages_result [of stgs c] obtain r where
    r: "scan_stages stgs c = Inr r"
       "case r of
          None \<Rightarrow> list_all (\<lambda>(k, stage). distinct (map fst (objects stage))) stgs \<longrightarrow>
                   (\<forall>ob \<in> set (concat (map (\<lambda>(k, stage). map snd (objects stage)) stgs)).
                      ownerCharID ob \<noteq> c)
        | Some ob \<Rightarrow> ob \<in> set (concat (map (\<lambda>(k, stage). map snd (objects stage)) stgs)) \<and>
                     ownerCharID ob = c"
    by blast
  from r(1) assms(1) have "r = None" by simp
  with r(2) assms(2) show ?thesis by simp
qed

lemma scan_stages_returns: "\<exists>r. scan_stages stgs c = Inr r"
  using scan_stages_result [of stgs c] by blast

lemma FindObjectByChar_none:
  assumes "\<forall>ob \<in> set (all_objects s). ownerCharID ob \<noteq> c"
  shows "FindObjectByChar s c = Inr None"
proof -
  from scan_stages_returns obtain r where r: "scan_stages (stages s) c = Inr r" by blast
  have "r = None"
  proof (cases r)
    case None
    then show ?thesis .
  next
    case (Some ob)
    with r have "ob \<in> set (all_objects s) \<and> ownerCharID ob = c"
      unfolding all_objects_def by (intro scan_stages_Some) simp
    with assms show ?thesis by blast
  qed
  with r show ?thesis by (simp add: FindObjectByChar_def)
qed

lemma FindObjectByChar_one:
  assumes "wf_stages s" and "ob \<in> set (all_objects s)" and "ownerCharID ob = c"
    and "\<forall>ob' \<in> set (all_objects s). ownerCharID ob' = c \<longrightarrow> ob' = ob"
  shows "FindObjectByChar s c = Inr (Some ob)"
proof -
  from scan_stages_returns obtain r where r: "scan_stages (stages s) c = Inr r" by blast
  have "r = Some ob"
  proof (cases r)
    case None
    with r assms(1) have "\<forall>ob \<in> set (all_objects s). ownerCharID ob \<noteq> c"
      unfolding all_objects_def wf_stages_def by (intro scan_stages_None) simp_all
    with assms(2,3) show ?thesis by blast
  next
    case (Some ob')
    with r have "ob' \<in> set (all_objects s) \<and> ownerCharID ob' = c"
      unfolding all_objects_def by (intro scan_stages_Some) simp
    with assms(4) Some show ?thesis by blast
  qed
  with r show ?thesis by (simp add: FindObjectByChar_def)
qed

text \<open>
  Claim C6.  \<^verbatim>\<open>FindObjectByChar\<close> never panics.  It returns nil (not found) for a
  character id that owns no object in any stage.  On a server whose object maps are
  well formed it returns the character's object when the character owns exactly one
  object across all stages.  The result does not depend on the order in which stages
  and objects are iterated: two well-formed servers holding the same objects, arranged
  in any order, give the same result for a character that owns at most one object.
\<close>

theorem FindObjectByChar_owner:
  "(\<exists>found. FindObjectByChar s c = Inr found) \<and>
   ((\<forall>ob \<in> set (all_objects s). ownerCharID ob \<noteq> c) \<longrightarrow> FindObjectByChar s c = Inr None) \<and>
   (wf_stages s \<and> ob \<in> set (all_objects s) \<and> ownerCharID ob = c \<and>
    (\<forall>ob' \<in> set (all_objects s). ownerCharID ob' = c \<longrightarrow> ob' = ob)
      \<longrightarrow> FindObjectByChar s c = Inr (Some ob)) \<and>
   (wf_stages s \<and> wf_stages s' \<and> set (all_objects s') = set (all_objects s) \<and>
    (\<forall>ob1 \<in> set (all_objects s). \<forall>ob2 \<in> set (all_objects s).
       ownerCharID ob1 = c \<and> ownerCharID ob2 = c \<longrightarrow> ob1 = ob2)
      \<longrightarrow> FindObjectByChar s' c = FindObjectByChar s c)"
proof (intro conjI impI)
  show "\<exists>found. FindObjectByChar s c = Inr found"
    unfolding FindObjectByChar_def by (rule scan_stages_returns)
next
  assume "\<forall>ob \<in> set (all_objects s). ownerCharID ob \<noteq> c"
  then show "FindObjectByChar s c = Inr None" by (rule FindObjectByChar_none)
next
  assume "wf_stages s \<and> ob \<in> set (all_objects s) \<and> ownerCharID ob = c \<and>
    (\<forall>ob' \<in> set (all_objects s). ownerCharID ob' = c \<longrightarrow> ob' = ob)"
  then show "FindObjectByChar s c = Inr (Some ob)" by (intro FindObjectByChar_one) simp_all
next
  assume a: "wf_stages s \<and> wf_stages s' \<and> set (all_objects s') = set (all_objects s) \<and>
    (\<forall>ob1 \<in> set (all_objects s). \<forall>ob2 \<in> set (all_objects s).
       ownerCharID ob1 = c \<and> ownerCharID ob2 = c \<longrightarrow> ob1 = ob2)"
  show "FindObjectByChar s' c = FindObjectByChar s c"
  proof (cases "\<exists>x \<in> set (all_objects s). ownerCharID x = c")
    case False
    then have "\<forall>ob \<in> set (all_objects s). ownerCharID ob \<noteq> c" by blast
    moreover from this a have "\<forall>ob \<in> set (all_objects s'). ownerCharID ob \<noteq> c" by simp
    ultimately show ?thesis by (simp add: FindObjectByChar_none)
  next
    case True
    then obtain x where x: "x \<in> set (all_objects s)" "ownerCharID x = c" by blast
    with a have u: "\<forall>ob' \<in> set (all_objects s). ownerCharID ob' = c \<longrightarrow> ob' = x" by blast
    from a x u have "FindObjectByChar s c = Inr (Some x)"
      by (intro FindObjectByChar_one) simp_all
    moreover from a x u have "FindObjectByChar s' c = Inr (Some x)"
      by (intro FindObjectByChar_one) simp_all
    ultimately show ?thesis by simp
  qed
qed


theorem FindObjectByChar_owner_witness:
  "FindObjectByChar (example_server\<lparr>stages := example_stages\<rparr>) 99 = Inr None \<and>
   FindObjectByChar (example_server\<lparr>stages := example_stages\<rparr>) 30
     = Inr (Some \<lparr>id_obj = 1, ownerCharID = 30\<rparr>) \<and>
   FindObjectByChar (example_server\<lparr>stages := rev example_stages\<rparr>) 30
     = FindObjectByChar (example_server\<lparr>stages := example_stages\<rparr>) 30"
proof -
  let ?s = "example_server\<lparr>stages := example_stages\<rparr>"
  let ?s' = "example_server\<lparr>stages := rev example_stages\<rparr>"
  let ?o = "\<lparr>id_obj = 1, ownerCharID = 30\<rparr>"
  have objs: "all_objects ?s =
      [\<lparr>id_obj = 1, ownerCharID = 10\<rparr>, \<lparr>id_obj = 2, ownerCharID = 20\<rparr>, ?o]"
    by (simp add: all_objects_def example_stages_def)
  have objs': "all_objects ?s' =
      [?o, \<lparr>id_obj = 1, ownerCharID = 10\<rparr>, \<lparr>id_obj = 2, ownerCharID = 20\<rparr>]"
    by (simp add: all_objects_def example_stages_def)
  have same: "set (all_objects ?s') = set (all_objects ?s)"
    unfolding objs objs' by (simp add: insert_commute)
  have wf: "wf_stages ?s" "wf_stages ?s'"
    by (simp_all add: wf_stages_def example_stages_def)
  have 1: "\<forall>ob \<in> set (all_objects ?s). ownerCharID ob \<noteq> 99"
    unfolding objs by simp
  have 2: "?o \<in> set (all_objects ?s)"
    unfolding objs by simp
  have 3: "\<forall>ob' \<in> set (all_objects ?s). ownerCharID ob' = 30 \<longrightarrow> ob' = ?o"
    unfolding objs by simp
  have 4: "\<forall>ob1 \<in> set (all_objects ?s). \<forall>ob2 \<in> set (all_objects ?s).
             ownerCharID ob1 = 30 \<and> ownerCharID ob2 = 30 \<longrightarrow> ob1 = ob2"
    unfolding objs by simp
  note th = FindObjectByChar_owner [of ?s _ ?o ?s']
  from th [of 99, THEN conjunct2] 1 have a: "FindObjectByChar ?s 99 = Inr None"
    by (rule conjunct1 [THEN mp])
  have o30: "ownerCharID ?o = 30" by simp
  from th [of 30, THEN conjunct2, THEN conjunct2, THEN conjunct1] wf(1) 2 o30 3
  have b: "FindObjectByChar ?s 30 = Inr (Some ?o)" by (elim impE) (intro conjI)
  from th [of 30, THEN conjunct2, THEN conjunct2, THEN conjunct2] wf same 4
  have c: "FindObjectByChar ?s' 30 = FindObjectByChar ?s 30" by (elim impE) (intro conjI)
  from a b c show ?thesis by (intro conjI)
qed

section \<open>Properties of the broadcast engine\<close>

lemma session_addrs_simps:
  "session_addrs [] = []"
  "session_addrs ((k, v) # al) = sess_addr v # session_addrs al"
  by (simp_all add: session_addrs_def)

lemma receivers_BroadcastMHF_range:
  "map receiver (BroadcastMHF_range M pkt ignoredSession xs) =
     filter (\<lambda>a. Some a \<noteq> ignoredSession) (session_addrs xs)"
  by (induction xs) (auto simp: Let_def session_addrs_simps)

lemma count_list_filter:
  "count_list (filter P ys) a = (if P a then count_list ys a else 0)"
  by (induction ys) auto

lemma count_list_distinct:
  "distinct ys \<Longrightarrow> count_list ys a = (if a \<in> set ys then 1 else 0)"
  by (induction ys) auto

lemma BroadcastMHF_range_eq:
  "BroadcastMHF_range M pkt ignoredSession xs =
     map (\<lambda>(c, session).
            QueueSendNonBlocking (sess_addr session)
              (Build M pkt [WriteUint16 (Opcode M pkt)] (clientContext session)))
         (filter (\<lambda>(c, session). Some (sess_addr session) \<noteq> ignoredSession) xs)"
  by (induction xs) (auto simp: Let_def)

text \<open>
  Claim C3.  One call of \<^verbatim>\<open>BroadcastMHF\<close> goes through the session map once: for each
  entry whose session is not the excluded one, in turn, it builds the data from the
  opcode and from that session's client context and calls \<^verbatim>\<open>QueueSendNonBlocking\<close> on that
  session once; it makes no call for the excluded session.  When the sessions of the map
  are different sessions (one session per connection, which holds in every state the
  session manager reaches when \<^verbatim>\<open>NewSession\<close> allocates a new session), every session
  other than the excluded one is called exactly once, and the excluded session and
  sessions outside the map are not called.
\<close>

theorem BroadcastMHF_once:
  "BroadcastMHF M s pkt ignoredSession =
     map (\<lambda>(c, session).
            QueueSendNonBlocking (sess_addr session)
              (Build M pkt [WriteUint16 (Opcode M pkt)] (clientContext session)))
         (filter (\<lambda>(c, session). Some (sess_addr session) \<noteq> ignoredSession) (sessions s)) \<and>
   (distinct (session_addrs (sessions s)) \<longrightarrow>
      (\<forall>a. count_list (map receiver (BroadcastMHF M s pkt ignoredSession)) a =
            (if a \<in> set (session_addrs (sessions s)) \<and> Some a \<noteq> ignoredSession
             then 1 else 0)))"
proof (intro conjI impI allI)
  show "BroadcastMHF M s pkt ignoredSession =
     map (\<lambda>(c, session).
            QueueSendNonBlocking (sess_addr session)
              (Build M pkt [WriteUint16 (Opcode M pkt)] (clientContext session)))
         (filter (\<lambda>(c, session). Some (sess_addr session) \<noteq> ignoredSession) (sessions s))"
    by (simp add: BroadcastMHF_def BroadcastMHF_range_eq)
next
  fix a
  assume d: "distinct (session_addrs (sessions s))"
  have "count_list (map receiver (BroadcastMHF M s pkt ignoredSession)) a =
        (if Some a \<noteq> ignoredSession then count_list (session_addrs (sessions s)) a else 0)"
    by (simp add: BroadcastMHF_def receivers_BroadcastMHF_range count_list_filter)
  also have "count_list (session_addrs (sessions s)) a =
        (if a \<in> set (session_addrs (sessions s)) then 1 else 0)"
    using d by (rule count_list_distinct)
  finally show "count_list (map receiver (BroadcastMHF M s pkt ignoredSession)) a =
            (if a \<in> set (session_addrs (sessions s)) \<and> Some a \<noteq> ignoredSession
             then 1 else 0)"
    by simp
qed

theorem BroadcastMHF_once_witness:
  "BroadcastMHF example_packets (example_server\<lparr>sessions := example_sessions\<rparr>) 9 (Some 100) =
     [QueueSendNonBlocking 200 [WriteUint16 0x10, SetLE, WriteUint32 9],
      QueueSendNonBlocking 300 [WriteUint16 0x10, WriteUint32 9]] \<and>
   count_list (map receiver
      (BroadcastMHF example_packets (example_server\<lparr>sessions := example_sessions\<rparr>) 9 (Some 100)))
      200 = 1 \<and>
   count_list (map receiver
      (BroadcastMHF example_packets (example_server\<lparr>sessions := example_sessions\<rparr>) 9 (Some 100)))
      100 = 0"
proof -
  let ?s = "example_server\<lparr>sessions := example_sessions\<rparr>"
  note th = BroadcastMHF_once [of example_packets ?s 9 "Some 100"]
  have addrs: "session_addrs (sessions ?s) = [100, 200, 300]"
    by (simp add: example_sessions_def session_addrs_simps)
  have d: "distinct (session_addrs (sessions ?s))"
    unfolding addrs by simp
  from th [THEN conjunct1]
  have a: "BroadcastMHF example_packets ?s 9 (Some 100) =
     [QueueSendNonBlocking 200 [WriteUint16 0x10, SetLE, WriteUint32 9],
      QueueSendNonBlocking 300 [WriteUint16 0x10, WriteUint32 9]]"
    by (simp add: example_sessions_def example_packets_def)
  from th [THEN conjunct2, THEN mp, OF d]
  have c: "count_list (map receiver (BroadcastMHF example_packets ?s 9 (Some 100))) a =
            (if a \<in> set (session_addrs (sessions ?s)) \<and> Some a \<noteq> Some 100 then 1 else 0)" for a
    by blast
  have "count_list (map receiver (BroadcastMHF example_packets ?s 9 (Some 100))) 200 = 1"
    unfolding c addrs by simp
  moreover have "count_list (map receiver (BroadcastMHF example_packets ?s 9 (Some 100))) 100 = 0"
    unfolding c by simp
  ultimately show ?thesis using a by (intro conjI)
qed

lemma WorldcastMHF_range_eq:
  "WorldcastMHF_range M heap pkt ignoredSession ignoredChannel cs =
     (concat (map (\<lambda>c. BroadcastMHF M (heap (the c)) pkt ignoredSession)
                  (takeWhile (\<lambda>c. c \<noteq> None) (filter (\<lambda>c. c \<noteq> ignoredChannel) cs))),
      if None \<in> set (filter (\<lambda>c. c \<noteq> ignoredChannel) cs) then Some NilDereference else None)"
proof (induction cs)
  case Nil
  show ?case by simp
next
  case (Cons c cs)
  show ?case
  proof (cases "c = ignoredChannel")
    case True
    with Cons.IH show ?thesis by simp
  next
    case False
    show ?thesis
    proof (cases c)
      case None
      with False show ?thesis by simp
    next
      case (Some a)
      with False Cons.IH show ?thesis by (simp add: Let_def)
    qed
  qed
qed

text \<open>
  Claim C5.  For an event-type code other than 2, 3, 4 and 5, \<^verbatim>\<open>BroadcastRaviente\<close> logs
  the error \<^verbatim>\<open>Unk raviente type\<close> and still makes the worldcast, with the empty string as
  the text of the message.  For the codes 2, 3, 4 and 5 nothing is logged and the text is
  the string that the dictionary holds under \<^verbatim>\<open>ravienteBerserk\<close>, \<^verbatim>\<open>ravienteExtreme\<close>,
  \<^verbatim>\<open>ravienteExtremeLimited\<close> and \<^verbatim>\<open>ravienteBerserkSmall\<close> (the empty string when the
  dictionary has no such key).  In every case the message carries that text in its
  payload, is addressed to character id 0, no specific character, and is broadcast, with
  no session excluded, to the channels other than the server's own, in order, up to the
  first nil channel pointer, where the loop panics; without a nil pointer every other
  channel is broadcast to.
\<close>

theorem BroadcastRaviente_text:
  assumes "\<And>text. msg text =
     \<lparr>CharID = 0, BroadcastType = BroadcastTypeServer C,
      MessageType = BinaryMessageTypeChat C,
      RawDataPayload =
        [SetLE, WriteUint16 0, WriteUint16 0x43, WriteUint16 3, ps_Uint16 text True,
         WriteBytes [0x5F, 0x53, 0x00], WriteUint32 ip, WriteUint16 port, WriteUint16 0,
         WriteBytes stage]\<rparr>"
  shows
   "(type_code \<notin> {2, 3, 4, 5} \<longrightarrow>
       BroadcastRaviente C M heap s ip port stage type_code =
         ([LogError ''Unk raviente type'' [Uint8 ''_type'' type_code]],
          WorldcastMHF M heap s (msg []) None (Some (srv_addr s)))) \<and>
    (\<forall>key localized.
       (type_code, key) \<in> {(2, ''ravienteBerserk''), (3, ''ravienteExtreme''),
                             (4, ''ravienteExtremeLimited''), (5, ''ravienteBerserkSmall'')} \<and>
       dict s key = Some localized \<longrightarrow>
       BroadcastRaviente C M heap s ip port stage type_code =
         ([], WorldcastMHF M heap s (msg localized) None (Some (srv_addr s)))) \<and>
    (\<forall>key.
       (type_code, key) \<in> {(2, ''ravienteBerserk''), (3, ''ravienteExtreme''),
                             (4, ''ravienteExtremeLimited''), (5, ''ravienteBerserkSmall'')} \<and>
       dict s key = None \<longrightarrow>
       BroadcastRaviente C M heap s ip port stage type_code =
         ([], WorldcastMHF M heap s (msg []) None (Some (srv_addr s)))) \<and>
    (\<forall>text.
       WorldcastMHF M heap s (msg text) None (Some (srv_addr s)) =
         (concat (map (\<lambda>c. BroadcastMHF M (heap (the c)) (msg text) None)
                      (takeWhile (\<lambda>c. c \<noteq> None)
                         (filter (\<lambda>c. c \<noteq> Some (srv_addr s)) (Channels s)))),
          if None \<in> set (Channels s) then Some NilDereference else None) \<and>
       CharID (msg text) = 0)"
proof (intro conjI impI allI)
  assume "type_code \<notin> {2, 3, 4, 5}"
  then show "BroadcastRaviente C M heap s ip port stage type_code =
         ([LogError ''Unk raviente type'' [Uint8 ''_type'' type_code]],
          WorldcastMHF M heap s (msg []) None (Some (srv_addr s)))"
    by (simp add: BroadcastRaviente_def assms)
next
  fix key localized
  assume "(type_code, key) \<in> {(2, ''ravienteBerserk''), (3, ''ravienteExtreme''),
                             (4, ''ravienteExtremeLimited''), (5, ''ravienteBerserkSmall'')} \<and>
       dict s key = Some localized"
  then consider "type_code = 2" "dict s ''ravienteBerserk'' = Some localized"
    | "type_code = 3" "dict s ''ravienteExtreme'' = Some localized"
    | "type_code = 4" "dict s ''ravienteExtremeLimited'' = Some localized"
    | "type_code = 5" "dict s ''ravienteBerserkSmall'' = Some localized"
    by auto
  then show "BroadcastRaviente C M heap s ip port stage type_code =
         ([], WorldcastMHF M heap s (msg localized) None (Some (srv_addr s)))"
    by cases (simp_all add: BroadcastRaviente_def index_dict_def assms)
next
  fix key
  assume "(type_code, key) \<in> {(2, ''ravienteBerserk''), (3, ''ravienteExtreme''),
                             (4, ''ravienteExtremeLimited''), (5, ''ravienteBerserkSmall'')} \<and>
       dict s key = None"
  then consider "type_code = 2" "dict s ''ravienteBerserk'' = None"
    | "type_code = 3" "dict s ''ravienteExtreme'' = None"
    | "type_code = 4" "dict s ''ravienteExtremeLimited'' = None"
    | "type_code = 5" "dict s ''ravienteBerserkSmall'' = None"
    by auto
  then show "BroadcastRaviente C M heap s ip port stage type_code =
         ([], WorldcastMHF M heap s (msg []) None (Some (srv_addr s)))"
    by cases (simp_all add: BroadcastRaviente_def index_dict_def assms)
next
  fix body
  have "None \<in> set (filter (\<lambda>c. c \<noteq> Some (srv_addr s)) (Channels s)) = (None \<in> set (Channels s))"
    by auto
  then show "WorldcastMHF M heap s (msg body) None (Some (srv_addr s)) =
         (concat (map (\<lambda>c. BroadcastMHF M (heap (the c)) (msg body) None)
                      (takeWhile (\<lambda>c. c \<noteq> None)
                         (filter (\<lambda>c. c \<noteq> Some (srv_addr s)) (Channels s)))),
          if None \<in> set (Channels s) then Some NilDereference else None)"
    by (simp only: WorldcastMHF_def WorldcastMHF_range_eq)
next
  fix body
  show "CharID (msg body) = 0" by (simp add: assms)
qed

theorem BroadcastRaviente_text_witness:
  "BroadcastRaviente example_constants example_casted_binary example_cluster example_announcer
     0x7F000001 54001 [1, 2] 2 =
     ([],
      [QueueSendNonBlocking 100
         ([WriteUint16 0x1B, WriteUint32 0, WriteUint16 0] @ example_payload ''Berserk''),
       QueueSendNonBlocking 200
         ([WriteUint16 0x1B, WriteUint32 0, WriteUint16 1] @ example_payload ''Berserk'')],
      None) \<and>
   BroadcastRaviente example_constants example_casted_binary example_cluster example_announcer
     0x7F000001 54001 [1, 2] 9 =
     ([LogError ''Unk raviente type'' [Uint8 ''_type'' 9]],
      [QueueSendNonBlocking 100
         ([WriteUint16 0x1B, WriteUint32 0, WriteUint16 0] @ example_payload []),
       QueueSendNonBlocking 200
         ([WriteUint16 0x1B, WriteUint32 0, WriteUint16 1] @ example_payload [])],
      None) \<and>
   BroadcastRaviente example_constants example_casted_binary example_cluster
     (example_announcer\<lparr>Channels := [Some 2, None, Some 2]\<rparr>)
     0x7F000001 54001 [1, 2] 9 =
     ([LogError ''Unk raviente type'' [Uint8 ''_type'' 9]],
      [QueueSendNonBlocking 100
         ([WriteUint16 0x1B, WriteUint32 0, WriteUint16 0] @ example_payload []),
       QueueSendNonBlocking 200
         ([WriteUint16 0x1B, WriteUint32 0, WriteUint16 1] @ example_payload [])],
      Some NilDereference)"
proof -
  let ?msg = "\<lambda>text.
     \<lparr>CharID = 0, BroadcastType = BroadcastTypeServer example_constants,
      MessageType = BinaryMessageTypeChat example_constants,
      RawDataPayload = example_payload text\<rparr>"
  let ?nil = "example_announcer\<lparr>Channels := [Some 2, None, Some 2]\<rparr>"
  have m: "\<And>text. ?msg text =
     \<lparr>CharID = 0, BroadcastType = BroadcastTypeServer example_constants,
      MessageType = BinaryMessageTypeChat example_constants,
      RawDataPayload =
        [SetLE, WriteUint16 0, WriteUint16 0x43, WriteUint16 3, ps_Uint16 text True,
         WriteBytes [0x5F, 0x53, 0x00], WriteUint32 0x7F000001, WriteUint16 54001,
         WriteUint16 0, WriteBytes [1, 2]]\<rparr>"
    by (simp add: example_payload_def)
  note th = BroadcastRaviente_text
              [of ?msg example_constants "0x7F000001" 54001 "[1, 2]" _
                  example_casted_binary example_cluster, OF m]
  have state: "srv_addr example_announcer = 1" "Channels example_announcer = [Some 1, Some 2]"
    "dict example_announcer ''ravienteBerserk'' = Some ''Berserk''"
    "srv_addr ?nil = 1" "Channels ?nil = [Some 2, None, Some 2]"
    by (simp_all add: example_announcer_def example_server_def NewServer_def)
  have chan2: "BroadcastMHF example_casted_binary (example_cluster 2) (?msg body) None =
      [QueueSendNonBlocking 100 ([WriteUint16 0x1B, WriteUint32 0, WriteUint16 0] @ example_payload body),
       QueueSendNonBlocking 200 ([WriteUint16 0x1B, WriteUint32 0, WriteUint16 1] @ example_payload body)]"
    for body
    by (simp add: example_cluster_def BroadcastMHF_def example_sessions_def
          example_casted_binary_def)
  have cast: "WorldcastMHF example_casted_binary example_cluster example_announcer (?msg body)
        None (Some (srv_addr example_announcer)) =
      ([QueueSendNonBlocking 100 ([WriteUint16 0x1B, WriteUint32 0, WriteUint16 0] @ example_payload body),
        QueueSendNonBlocking 200 ([WriteUint16 0x1B, WriteUint32 0, WriteUint16 1] @ example_payload body)],
       None)"
    for body
    using th [of 2 example_announcer, THEN conjunct2, THEN conjunct2, THEN conjunct2,
              THEN spec, of body, THEN conjunct1]
    by (simp add: state chan2)
  have cast_nil: "WorldcastMHF example_casted_binary example_cluster ?nil (?msg body)
        None (Some (srv_addr ?nil)) =
      ([QueueSendNonBlocking 100 ([WriteUint16 0x1B, WriteUint32 0, WriteUint16 0] @ example_payload body),
        QueueSendNonBlocking 200 ([WriteUint16 0x1B, WriteUint32 0, WriteUint16 1] @ example_payload body)],
       Some NilDereference)"
    for body
    using th [of 9 ?nil, THEN conjunct2, THEN conjunct2, THEN conjunct2,
              THEN spec, of body, THEN conjunct1]
    by (simp add: state chan2)
  have known: "((2::u8), ''ravienteBerserk'') \<in> {(2, ''ravienteBerserk''), (3, ''ravienteExtreme''),
       (4, ''ravienteExtremeLimited''), (5, ''ravienteBerserkSmall'')} \<and>
     dict example_announcer ''ravienteBerserk'' = Some ''Berserk''"
    by (simp add: state)
  have unk: "(9::u8) \<notin> {2, 3, 4, 5}" by simp
  from th [of 2 example_announcer, THEN conjunct2, THEN conjunct1, THEN spec, THEN spec,
           THEN mp, OF known]
  have a: "BroadcastRaviente example_constants example_casted_binary example_cluster
      example_announcer 0x7F000001 54001 [1, 2] 2 =
      ([], WorldcastMHF example_casted_binary example_cluster example_announcer
             (?msg ''Berserk'') None (Some (srv_addr example_announcer)))" .
  from th [of 9 example_announcer, THEN conjunct1, THEN mp, OF unk]
  have b: "BroadcastRaviente example_constants example_casted_binary example_cluster
      example_announcer 0x7F000001 54001 [1, 2] 9 =
      ([LogError ''Unk raviente type'' [Uint8 ''_type'' 9]],
       WorldcastMHF example_casted_binary example_cluster example_announcer
         (?msg []) None (Some (srv_addr example_announcer)))" .
  from th [of 9 ?nil, THEN conjunct1, THEN mp, OF unk]
  have c: "BroadcastRaviente example_constants example_casted_binary example_cluster
      ?nil 0x7F000001 54001 [1, 2] 9 =
      ([LogError ''Unk raviente type'' [Uint8 ''_type'' 9]],
       WorldcastMHF example_casted_binary example_cluster ?nil
         (?msg []) None (Some (srv_addr ?nil)))" .
  show ?thesis
    unfolding a b c cast cast_nil by (intro conjI refl)
qed

section \<open>Properties of the session manager\<close>

lemma manageSessions_round_flags:
  "manageSessions_round NewSession s r = Returned s' \<Longrightarrow> s' = s"
  "manageSessions_round NewSession s r = Registered s' session \<Longrightarrow>
     isShuttingDown s' = isShuttingDown s \<and> acceptConns s' = acceptConns s"
  "manageSessions_round NewSession s r = Removed s' \<Longrightarrow>
     isShuttingDown s' = isShuttingDown s \<and> acceptConns s' = acceptConns s"
  by (auto simp: manageSessions_round_def Let_def split: received.splits if_splits)

lemma after_round_flags:
  "isShuttingDown (srv (after_round \<sigma> (manageSessions_round NewSession (srv \<sigma>) r)))
     = isShuttingDown (srv \<sigma>) \<and>
   acceptConns (srv (after_round \<sigma> (manageSessions_round NewSession (srv \<sigma>) r)))
     = acceptConns (srv \<sigma>) \<and>
   shutdown_pc (after_round \<sigma> (manageSessions_round NewSession (srv \<sigma>) r)) = shutdown_pc \<sigma>"
  by (cases r) (simp_all add: manageSessions_round_def after_round_def Let_def)

lemma reachable_shutdown_order:
  assumes "reachable NewSession s0 \<sigma>"
    and "acceptConns s0 = Open" and "\<not> isShuttingDown s0"
  shows "isShuttingDown (srv \<sigma>) = (1 \<le> shutdown_pc \<sigma>) \<and>
         (acceptConns (srv \<sigma>) = Closed) = (shutdown_pc \<sigma> = 3) \<and> shutdown_pc \<sigma> \<le> 3"
  using assms
proof (induction rule: reachable.induct)
  case started
  then show ?case by (cases "acceptConns s0") simp_all
next
  case (shutdown_flag \<sigma>)
  then show ?case by simp
next
  case (shutdown_listener \<sigma>)
  then show ?case by simp
next
  case (shutdown_close \<sigma>)
  then show ?case by simp
next
  case (accepted \<sigma> c)
  then show ?case by (simp only: after_round_flags) simp
next
  case (closed \<sigma>)
  then show ?case by (simp only: after_round_flags) simp
next
  case (deleted \<sigma> c)
  then show ?case by (simp only: after_round_flags) simp
qed

lemma nil_key_after_round:
  "map_of (sessions (srv \<sigma>)) None = None \<Longrightarrow>
   r \<noteq> from_acceptConns None \<or> isShuttingDown (srv \<sigma>) \<Longrightarrow>
   map_of (sessions (srv (after_round \<sigma> (manageSessions_round NewSession (srv \<sigma>) r)))) None
     = None"
  by (cases r)
     (auto simp: manageSessions_round_def after_round_def Let_def update_conv' delete_conv')

lemma reachable_no_nil_session:
  assumes "reachable NewSession s0 \<sigma>"
    and "acceptConns s0 = Open" and "\<not> isShuttingDown s0" and "sessions s0 = []"
  shows "map_of (sessions (srv \<sigma>)) None = None"
  using assms
proof (induction rule: reachable.induct)
  case started
  then show ?case by simp
next
  case (shutdown_flag \<sigma>)
  then show ?case by simp
next
  case (shutdown_listener \<sigma>)
  then show ?case by simp
next
  case (shutdown_close \<sigma>)
  then show ?case by simp
next
  case (accepted \<sigma> c)
  then show ?case by (intro nil_key_after_round) simp_all
next
  case (closed \<sigma>)
  from closed.hyps closed.prems reachable_shutdown_order [of NewSession s0 \<sigma>]
  have "isShuttingDown (srv \<sigma>)" by simp
  with closed show ?case by (intro nil_key_after_round) simp_all
next
  case (deleted \<sigma> c)
  then show ?case by (intro nil_key_after_round) simp_all
qed

lemma NewServer_start:
  "acceptConns (NewServer a NewStage getLangStrings config) = Open \<and>
   \<not> isShuttingDown (NewServer a NewStage getLangStrings config) \<and>
   sessions (NewServer a NewStage getLangStrings config) = []"
  by (simp add: NewServer_def)

text \<open>
  The sessions of the session map are different sessions in every reachable state, when
  \<^verbatim>\<open>NewSession\<close> allocates a session at an address that no registered session has.
\<close>

lemma addrs_update_subset:
  "set (session_addrs (AList.update k v al)) \<subseteq> insert (sess_addr v) (set (session_addrs al))"
proof (induction al)
  case Nil
  show ?case by (simp add: session_addrs_simps)
next
  case (Cons p al)
  obtain k' v' where p: "p = (k', v')" by (cases p)
  with Cons.IH show ?case by (auto simp: session_addrs_simps)
qed

lemma addrs_delete_subset:
  "set (session_addrs (AList.delete k al)) \<subseteq> set (session_addrs al)"
proof (induction al)
  case Nil
  show ?case by (simp add: session_addrs_simps)
next
  case (Cons p al)
  obtain k' v' where p: "p = (k', v')" by (cases p)
  with Cons.IH show ?case by (auto simp: session_addrs_simps)
qed

lemma distinct_update_fresh:
  assumes "distinct (session_addrs al)"
    and "sess_addr v \<notin> set (session_addrs al)"
  shows "distinct (session_addrs (AList.update k v al))"
  using assms
proof (induction al)
  case Nil
  show ?case by (simp add: session_addrs_simps)
next
  case (Cons p al)
  obtain k' v' where p: "p = (k', v')" by (cases p)
  show ?case
  proof (cases "k' = k")
    case True
    with Cons.prems p show ?thesis by (simp add: session_addrs_simps)
  next
    case False
    from Cons.prems p have d: "distinct (session_addrs al)"
      and f: "sess_addr v \<notin> set (session_addrs al)"
      and n: "sess_addr v' \<notin> set (session_addrs al)" and ne: "sess_addr v \<noteq> sess_addr v'"
      by (auto simp: session_addrs_simps)
    from n ne addrs_update_subset [of k v al]
    have "sess_addr v' \<notin> set (session_addrs (AList.update k v al))"
      by auto
    with Cons.IH [OF d f] False p show ?thesis by (simp add: session_addrs_simps)
  qed
qed

lemma distinct_delete:
  "distinct (session_addrs al) \<Longrightarrow> distinct (session_addrs (AList.delete k al))"
proof (induction al)
  case Nil
  show ?case by (simp add: session_addrs_simps)
next
  case (Cons p al)
  obtain k' v' where p: "p = (k', v')" by (cases p)
  from Cons.prems p have d: "distinct (session_addrs al)"
    and n: "sess_addr v' \<notin> set (session_addrs al)" by (auto simp: session_addrs_simps)
  from n addrs_delete_subset [of k al]
  have "sess_addr v' \<notin> set (session_addrs (AList.delete k al))"
    by auto
  with Cons.IH [OF d] p show ?case by (simp add: session_addrs_simps)
qed

lemma reachable_sessions_distinct:
  assumes "reachable NewSession s0 \<sigma>"
    and "sessions s0 = []"
    and fresh: "\<And>s c. sess_addr (NewSession s c) \<notin> set (session_addrs (sessions s))"
  shows "distinct (session_addrs (sessions (srv \<sigma>)))"
  using assms(1,2)
proof (induction rule: reachable.induct)
  case started
  then show ?case by (simp add: session_addrs_simps)
next
  case (shutdown_flag \<sigma>)
  then show ?case by simp
next
  case (shutdown_listener \<sigma>)
  then show ?case by simp
next
  case (shutdown_close \<sigma>)
  then show ?case by simp
next
  case (accepted \<sigma> c)
  then have "distinct (session_addrs (sessions (srv \<sigma>)))" by simp
  from distinct_update_fresh [OF this fresh]
  show ?case by (simp add: manageSessions_round_def after_round_def Let_def)
next
  case (closed \<sigma>)
  then have "distinct (session_addrs (sessions (srv \<sigma>)))" by simp
  from distinct_update_fresh [OF this fresh] this
  show ?case by (simp add: manageSessions_round_def after_round_def Let_def)
next
  case (deleted \<sigma> c)
  then have "distinct (session_addrs (sessions (srv \<sigma>)))" by simp
  from distinct_delete [OF this]
  show ?case by (simp add: manageSessions_round_def after_round_def Let_def)
qed

text \<open>
  Without the shutdown flag a nil connection is not told apart: the round goes on to
  construct and register a session for it.  No reachable state has the channel closed
  and the flag unset, which the claim below rests on.
\<close>

lemma manageSessions_round_nil_unflagged:
  "\<not> isShuttingDown s \<Longrightarrow>
   manageSessions_round NewSession s (from_acceptConns None) =
     Registered (s\<lparr>sessions := AList.update None (NewSession s None) (sessions s)\<rparr>)
       (NewSession s None)"
  by (simp add: manageSessions_round_def Let_def)

text \<open>
  Claim C4.  In every state the server reaches from \<^verbatim>\<open>NewServer\<close> by \<^verbatim>\<open>Shutdown\<close> and the
  rounds of \<^verbatim>\<open>manageSessions\<close>: when the channel \<^verbatim>\<open>acceptConns\<close> is closed, so that the
  receive yields nil, the shutdown flag is set, and the round that receives the nil
  connection returns from \<^verbatim>\<open>manageSessions\<close> with the server unchanged: it constructs no
  session and registers none.  No session is ever registered under the nil connection.
\<close>

theorem manageSessions_closed_handoff:
  assumes "reachable NewSession (NewServer a NewStage getLangStrings config) \<sigma>"
  shows "(acceptConns (srv \<sigma>) = Closed \<longrightarrow>
            isShuttingDown (srv \<sigma>) \<and>
            manageSessions_round NewSession (srv \<sigma>) (from_acceptConns None) = Returned (srv \<sigma>) \<and>
            after_round \<sigma> (manageSessions_round NewSession (srv \<sigma>) (from_acceptConns None))
              = \<sigma>\<lparr>managing := False\<rparr>) \<and>
         map_of (sessions (srv \<sigma>)) None = None"
proof (intro conjI impI)
  note start = NewServer_start [of a NewStage getLangStrings config]
  {
    assume c: "acceptConns (srv \<sigma>) = Closed"
    with reachable_shutdown_order [OF assms] start
    show flag: "isShuttingDown (srv \<sigma>)" by simp
    then show ret: "manageSessions_round NewSession (srv \<sigma>) (from_acceptConns None) = Returned (srv \<sigma>)"
      by (simp add: manageSessions_round_def)
    show "after_round \<sigma> (manageSessions_round NewSession (srv \<sigma>) (from_acceptConns None))
              = \<sigma>\<lparr>managing := False\<rparr>"
      by (simp add: ret after_round_def)
  }
  from reachable_no_nil_session [OF assms] start
  show "map_of (sessions (srv \<sigma>)) None = None" by simp
qed

theorem manageSessions_closed_handoff_witness:
  "acceptConns (srv example_shutdown) = Closed \<and>
   isShuttingDown (srv example_shutdown) \<and>
   manageSessions_round example_NewSession (srv example_shutdown) (from_acceptConns None)
     = Returned (srv example_shutdown) \<and>
   map_of (sessions (srv example_shutdown)) None = None"
proof -
  let ?R = "reachable example_NewSession example_server"
  have start: "acceptConns example_server = Open" "sessions example_server = []"
    using NewServer_start
            [of 1 example_NewStage "\<lambda>s. Map.empty" "\<lparr>cfg_ID = 1, cfg_Name = ''channel''\<rparr>"]
    unfolding example_server_def by simp_all
  have r0: "?R \<lparr>srv = example_server, shutdown_pc = 0, managing = True\<rparr>"
    by (rule reachable.started)
  from reachable.accepted [OF r0, of 5]
  have r1: "?R \<lparr>srv = example_server
        \<lparr>sessions := [(Some 5, \<lparr>sess_addr = 100, sess_charID = 0, clientContext = 0\<rparr>)]\<rparr>,
      shutdown_pc = 0, managing = True\<rparr>"
    by (simp add: start manageSessions_round_def after_round_def example_NewSession_def Let_def)
  from reachable.shutdown_flag [OF r1]
  have r2: "?R \<lparr>srv = example_server
        \<lparr>sessions := [(Some 5, \<lparr>sess_addr = 100, sess_charID = 0, clientContext = 0\<rparr>)],
         isShuttingDown := True\<rparr>,
      shutdown_pc = 1, managing = True\<rparr>"
    by simp
  from reachable.shutdown_listener [OF r2]
  have r3: "?R \<lparr>srv = example_server
        \<lparr>sessions := [(Some 5, \<lparr>sess_addr = 100, sess_charID = 0, clientContext = 0\<rparr>)],
         isShuttingDown := True\<rparr>,
      shutdown_pc = 2, managing = True\<rparr>"
    by simp
  from reachable.shutdown_close [OF r3]
  have r4: "?R example_shutdown"
    by (simp add: example_shutdown_def)
  have c: "acceptConns (srv example_shutdown) = Closed"
    by (simp add: example_shutdown_def)
  from manageSessions_closed_handoff [OF r4 [unfolded example_server_def]] c
  show ?thesis by simp
qed

section \<open>Properties of the guild membership lookup\<close>

text \<open>
  Claim C10.  When the membership query for a character id succeeds and yields no row,
  \<^verbatim>\<open>GetCharacterGuildData\<close> returns no member and no error (both nil) and logs nothing:
  the absence of a membership row is reported as not found, not as a failure.
\<close>

theorem GetCharacterGuildData_no_row:
  "db_Queryx (guildMembersSelectSQL @ ''	WHERE character.character_id=$1'') charID = Inr []
   \<Longrightarrow> GetCharacterGuildData db_Queryx charID = ((None, None), [])"
  by (simp add: GetCharacterGuildData_def)

theorem GetCharacterGuildData_no_row_witness:
  "GetCharacterGuildData (\<lambda>q c. Inr []) 42 = ((None, None), [])"
  using GetCharacterGuildData_no_row [of "\<lambda>q c. Inr []" 42]
  by simp

end
